theory Spec2Isabelle
  imports Main
begin

section \<open>Python strings\<close>

text \<open>
  A Python \<^verbatim>\<open>str\<close> is a sequence of Unicode code points, so a string is a list of
  natural numbers and \<^verbatim>\<open>len\<close> is \<open>length\<close>. ASCII literals of the source are
  written \<open>lit ''...''\<close>; a letter outside ASCII is written as its code point.
\<close>

type_synonym ustr = "nat list"

definition lit :: "string \<Rightarrow> ustr" where
  "lit s = map of_char s"

text \<open>
  \<^verbatim>\<open>str.lower\<close> and \<^verbatim>\<open>str.casefold\<close> are built-ins driven by the Unicode character
  database, which is no part of the repository: they are parameters of the model.
  \<open>str_lower\<close> maps a whole string (lowering is context sensitive for the Greek final
  sigma), \<open>casefold_cp\<close> gives the full case folding of one code point, which is how
  CPython folds a string.
\<close>

record pystr =
  str_lower :: "ustr \<Rightarrow> ustr"
  casefold_cp :: "nat \<Rightarrow> ustr"

definition casefold :: "pystr \<Rightarrow> ustr \<Rightarrow> ustr" where
  "casefold U s = concat (map (casefold_cp U) s)"

text \<open>The instance used for concrete runs: both built-ins on ASCII text.\<close>

definition ascii_lower_cp :: "nat \<Rightarrow> nat" where
  "ascii_lower_cp c = (if 65 \<le> c \<and> c \<le> 90 then c + 32 else c)"

definition ascii_str :: pystr where
  "ascii_str = \<lparr> str_lower = map ascii_lower_cp, casefold_cp = (\<lambda>c. [ascii_lower_cp c]) \<rparr>"

text \<open>\<^verbatim>\<open>str.isspace\<close> of one code point; \<^verbatim>\<open>\s\<close> of \<^verbatim>\<open>re\<close> is the same set.\<close>

definition isspace :: "nat \<Rightarrow> bool" where
  "isspace c \<longleftrightarrow>
     (9 \<le> c \<and> c \<le> 13) \<or> (28 \<le> c \<and> c \<le> 32) \<or> c = 133 \<or> c = 160 \<or> c = 5760 \<or>
     (8192 \<le> c \<and> c \<le> 8202) \<or> c = 8232 \<or> c = 8233 \<or> c = 8239 \<or> c = 8287 \<or> c = 12288"

definition lstrip :: "ustr \<Rightarrow> ustr" where
  "lstrip s = dropWhile isspace s"

definition rstrip :: "ustr \<Rightarrow> ustr" where
  "rstrip s = rev (dropWhile isspace (rev s))"

definition strip :: "ustr \<Rightarrow> ustr" where
  "strip s = rstrip (lstrip s)"

text \<open>\<^verbatim>\<open>s.startswith(p)\<close> and \<^verbatim>\<open>sub in s\<close>.\<close>

fun startswith :: "ustr \<Rightarrow> ustr \<Rightarrow> bool" where
  "startswith s [] = True"
| "startswith [] (p # ps) = False"
| "startswith (c # cs) (p # ps) = (c = p \<and> startswith cs ps)"

fun str_contains :: "ustr \<Rightarrow> ustr \<Rightarrow> bool" where
  "str_contains [] sub = (sub = [])"
| "str_contains (c # cs) sub = (startswith (c # cs) sub \<or> str_contains cs sub)"

text \<open>\<^verbatim>\<open>sep.join(parts)\<close>.\<close>

fun join :: "ustr \<Rightarrow> ustr list \<Rightarrow> ustr" where
  "join sep [] = []"
| "join sep [x] = x"
| "join sep (x # y # ys) = x @ sep @ join sep (y # ys)"

text \<open>
  \<^verbatim>\<open>s.split()\<close>: the maximal runs of characters that are not white space. \<open>cur\<close> is
  the word being read.
\<close>

fun split_from :: "ustr \<Rightarrow> ustr \<Rightarrow> ustr list" where
  "split_from cur [] = (if cur = [] then [] else [cur])"
| "split_from cur (c # cs) =
     (if isspace c then (if cur = [] then split_from [] cs else cur # split_from [] cs)
      else split_from (cur @ [c]) cs)"

definition split_ws :: "ustr \<Rightarrow> ustr list" where
  "split_ws s = split_from [] s"

section \<open>Text normalizer and city test\<close>

text \<open>
  \<^verbatim>\<open>
  def _normalize_tr(s):
      table = str.maketrans({...twelve Turkish letters...})
      return s.translate(table).casefold()
  \<close>
  The keys are dotless i 305, dotted capital I 304, s-cedilla 351 and 350, soft g 287
  and 286, u-umlaut 252 and 220, o-umlaut 246 and 214, c-cedilla 231 and 199.
\<close>

definition tr_table :: "(nat \<times> nat) list" where
  "tr_table =
     [(305, 105), (304, 105), (351, 115), (350, 115), (287, 103), (286, 103),
      (252, 117), (220, 117), (246, 111), (214, 111), (231, 99), (199, 99)]"

definition translate_cp :: "nat \<Rightarrow> nat" where
  "translate_cp c = (case map_of tr_table c of Some d \<Rightarrow> d | None \<Rightarrow> c)"

definition normalize_tr :: "pystr \<Rightarrow> ustr \<Rightarrow> ustr" where
  "normalize_tr U s = casefold U (map translate_cp s)"

text \<open>
  \<^verbatim>\<open>
  def _in_city(addr, city):
      if not addr or not city:
          return False
      return _normalize_tr(city) in _normalize_tr(addr)
  \<close>
\<close>

definition in_city :: "pystr \<Rightarrow> ustr \<Rightarrow> ustr \<Rightarrow> bool" where
  "in_city U addr city =
     (if addr = [] \<or> city = [] then False
      else str_contains (normalize_tr U addr) (normalize_tr U city))"

text \<open>
  \<^verbatim>\<open>
  def _is_outdoor_type(venue_type):
      return (venue_type or "").strip().lower() == "outdoor"
  \<close>
\<close>

definition is_outdoor_type :: "pystr \<Rightarrow> ustr \<Rightarrow> bool" where
  "is_outdoor_type U venue_type \<longleftrightarrow> str_lower U (strip venue_type) = lit ''outdoor''"

section \<open>Place records and the cuisine matcher\<close>

text \<open>
  The dictionaries of the place lookup. A seed is what text search returns, a place is
  what the details lookup returns. Only the keys the venue agent reads or writes are
  fields; a key that is absent or \<^verbatim>\<open>None\<close> is \<open>None\<close>. \<open>editorial_overview\<close> is
  \<^verbatim>\<open>det["editorial_summary"]["overview"]\<close>.
\<close>

record seed =
  seed_place_id :: "ustr option"
  seed_name :: "ustr option"

record place =
  place_id :: "ustr option"
  name :: "ustr option"
  formatted_address :: "ustr option"
  website :: "ustr option"
  serves_cuisine :: "ustr list option"
  editorial_overview :: "ustr option"
  types :: "ustr list option"
  source :: "ustr option"
  match_status :: "ustr option"

text \<open>\<^verbatim>\<open>x or ""\<close> for an optional string.\<close>

definition or_empty :: "ustr option \<Rightarrow> ustr" where
  "or_empty x = (case x of None \<Rightarrow> [] | Some s \<Rightarrow> s)"

text \<open>
  \<^verbatim>\<open>CUISINE_KEYS\<close> of \<^verbatim>\<open>_matches_cuisine\<close>. 252 is u-umlaut, 351 s-cedilla, 305
  dotless i.
\<close>

definition CUISINE_KEYS :: "(ustr \<times> ustr list) list" where
  "CUISINE_KEYS =
     [(lit ''italian'', [lit ''italian'', lit ''italiano'', lit ''italyan'', lit ''ristorante'',
         lit ''trattoria'', lit ''pizzeria'', lit ''pizza'', lit ''pasta'']),
      (lit ''turkish'', [lit ''turkish'', lit ''t'' @ [252] @ lit ''rk'', lit ''lokanta'',
         lit ''kebap'', lit ''ocakba'' @ [351, 305], lit ''meze'']),
      (lit ''mediterranean'', [lit ''mediterranean'', lit ''akdeniz'']),
      (lit ''asian'', [lit ''asian'', lit ''asya'', lit ''sushi'', lit ''ramen'', lit ''thai'',
         lit ''korean'', lit ''kore'', lit ''japanese'', lit ''japon'']),
      (lit ''mixed'', [lit ''mixed'', lit ''international'', lit ''uluslararasi''])]"

text \<open>
  \<^verbatim>\<open>
  def _matches_cuisine(self, det, cuisine):
      if not cuisine: return True
      ckey = cuisine.strip().lower()
      keys = CUISINE_KEYS.get(ckey, [ckey])
      serves = det.get("serves_cuisine")
      if isinstance(serves, list) and any(str(s).lower() in keys for s in serves):
          return True
      ... overview, types ...
      hay = " ".join([name, formatted_address, overview, types, website]).lower()
      return any(k in hay for k in keys)
  \<close>
\<close>

definition matches_cuisine :: "pystr \<Rightarrow> place \<Rightarrow> ustr \<Rightarrow> bool" where
  "matches_cuisine U det cuisine =
     (if cuisine = [] then True
      else
        (let ckey = str_lower U (strip cuisine);
             keys = (case map_of CUISINE_KEYS ckey of Some ks \<Rightarrow> ks | None \<Rightarrow> [ckey])
         in if (case serves_cuisine det of
                  Some serves \<Rightarrow> list_ex (\<lambda>s. str_lower U s \<in> set keys) serves
                | None \<Rightarrow> False)
            then True
            else
              (let overview = or_empty (editorial_overview det);
                   tys = join (lit '' '') (case types det of Some ts \<Rightarrow> ts | None \<Rightarrow> []);
                   hay = str_lower U (join (lit '' '')
                           [or_empty (name det), or_empty (formatted_address det), overview, tys,
                            or_empty (website det)])
               in list_ex (\<lambda>k. str_contains hay k) keys)))"

section \<open>Venue name extractor\<close>

text \<open>
  The regular expression \<^verbatim>\<open>\*\*([^*]+?)\*\*\<close> tried at the head of \<open>s\<close>: two stars
  (code point 42), then a lazy non-empty run of characters other than the star, then
  two stars. Since the run cannot contain a star and must be followed by one, the run
  is the whole maximal star-free run. The result is the group and the text after the
  closing stars.
\<close>

definition bold_at :: "ustr \<Rightarrow> (ustr \<times> ustr) option" where
  "bold_at s =
     (if startswith s [42, 42] then
        (let r = drop 2 s; g = takeWhile (\<lambda>c. c \<noteq> 42) r; t = dropWhile (\<lambda>c. c \<noteq> 42) r
         in if g \<noteq> [] \<and> startswith t [42, 42] then Some (g, drop 2 t) else None)
      else None)"

text \<open>
  The tail \<^verbatim>\<open>\s*[:\-]?\<close> of the pattern given to \<^verbatim>\<open>re.findall\<close>: greedy white space,
  then at most one colon (58) or hyphen (45).
\<close>

definition skip_sep :: "ustr \<Rightarrow> ustr" where
  "skip_sep s =
     (case dropWhile isspace s of
        [] \<Rightarrow> []
      | c # cs \<Rightarrow> if c = 58 \<or> c = 45 then cs else c # cs)"

text \<open>
  \<^verbatim>\<open>re.findall(r"\*\*([^*]+?)\*\*\s*[:\-]?", text)\<close>: the groups of the leftmost
  non-overlapping matches, scanning resumes where a match ended.
\<close>

function findall_bold :: "ustr \<Rightarrow> ustr list" where
  "findall_bold s =
     (if s = [] then []
      else (case bold_at s of
              Some (g, rest) \<Rightarrow> g # findall_bold (skip_sep rest)
            | None \<Rightarrow> findall_bold (tl s)))"
  by pat_completeness auto

termination findall_bold
proof (relation "measure length")
  show "wf (measure length)" by simp
next
  fix s :: ustr and x2 :: "ustr \<times> ustr" and g rest :: ustr
  assume a: "s \<noteq> []" "bold_at s = Some x2" "(g, rest) = x2"
  have "length (dropWhile (\<lambda>c. c \<noteq> 42) (drop 2 s)) \<le> length (drop 2 s)"
    by (rule length_dropWhile_le)
  with a have "length rest < length s"
    by (cases s) (auto simp: bold_at_def Let_def split: if_splits)
  moreover have "length (dropWhile isspace rest) \<le> length rest"
    by (rule length_dropWhile_le)
  then have "length (skip_sep rest) \<le> length rest"
    by (auto simp: skip_sep_def split: list.splits)
  ultimately show "(skip_sep rest, s) \<in> measure length" by simp
next
  fix s :: ustr
  assume "s \<noteq> []" "bold_at s = None"
  then show "(tl s, s) \<in> measure length" by (cases s) auto
qed

declare findall_bold.simps [simp del]

text \<open>\<^verbatim>\<open>re.search(r"\*\*([^*]+?)\*\*", s)\<close>: the group of the leftmost match.\<close>

fun search_bold :: "ustr \<Rightarrow> ustr option" where
  "search_bold [] = None"
| "search_bold (c # cs) =
     (case bold_at (c # cs) of Some (g, rest) \<Rightarrow> Some g | None \<Rightarrow> search_bold cs)"

text \<open>
  The pattern \<^verbatim>\<open>\s*\([^)]*\)\s*\<close> tried at the head of \<open>s\<close>: greedy white space, an
  opening parenthesis (40), everything up to the first closing one (41), greedy white
  space. The result is the text after the match.
\<close>

definition paren_at :: "ustr \<Rightarrow> ustr option" where
  "paren_at s =
     (case dropWhile isspace s of
        [] \<Rightarrow> None
      | c # r \<Rightarrow>
          if c = 40 then
            (case dropWhile (\<lambda>d. d \<noteq> 41) r of
               [] \<Rightarrow> None
             | d # t \<Rightarrow> Some (dropWhile isspace t))
          else None)"

text \<open>\<^verbatim>\<open>re.sub(r"\s*\([^)]*\)\s*", "", s)\<close>: every leftmost match is deleted.\<close>

function sub_parens :: "ustr \<Rightarrow> ustr" where
  "sub_parens s =
     (if s = [] then []
      else (case paren_at s of
              Some rest \<Rightarrow> sub_parens rest
            | None \<Rightarrow> hd s # sub_parens (tl s)))"
  by pat_completeness auto
termination sub_parens
proof (relation "measure length")
  show "wf (measure length)" by simp
next
  fix s rest :: ustr
  assume a: "s \<noteq> []" "paren_at s = Some rest"
  have l1: "length (dropWhile isspace s) \<le> length s" by (rule length_dropWhile_le)
  from a obtain c r d t where
    s1: "dropWhile isspace s = c # r" and
    s2: "dropWhile (\<lambda>d. d \<noteq> 41) r = d # t" and
    s3: "rest = dropWhile isspace t"
    by (auto simp: paren_at_def split: list.splits if_splits)
  have "length (dropWhile (\<lambda>d. d \<noteq> 41) r) \<le> length r" by (rule length_dropWhile_le)
  then have "length t < length r" using s2 by simp
  moreover have "length rest \<le> length t" unfolding s3 by (rule length_dropWhile_le)
  moreover have "length r < length s" using l1 s1 by simp
  ultimately show "(rest, s) \<in> measure length" by simp
next
  fix s :: ustr
  assume "s \<noteq> []" "paren_at s = None"
  then show "(tl s, s) \<in> measure length" by (cases s) auto
qed

declare sub_parens.simps [simp del]

text \<open>\<^verbatim>\<open>re.sub(r"\s*\([^)]*\)\s*", "", match).strip()\<close>.\<close>

definition clean_name :: "ustr \<Rightarrow> ustr" where
  "clean_name g = strip (sub_parens g)"

text \<open>
  \<^verbatim>\<open>str.splitlines\<close>: a line ends at line feed, vertical tab, form feed, carriage
  return (with a following line feed), file, group or record separator, next line,
  line separator or paragraph separator; the last line needs no terminator.
\<close>

definition is_linebreak :: "nat \<Rightarrow> bool" where
  "is_linebreak c \<longleftrightarrow>
     (10 \<le> c \<and> c \<le> 13) \<or> (28 \<le> c \<and> c \<le> 30) \<or> c = 133 \<or> c = 8232 \<or> c = 8233"

fun splitlines_from :: "ustr \<Rightarrow> ustr \<Rightarrow> ustr list" where
  "splitlines_from cur [] = (if cur = [] then [] else [cur])"
| "splitlines_from cur (c # cs) =
     (if is_linebreak c then
        (case cs of
           [] \<Rightarrow> [cur]
         | d # ds \<Rightarrow>
             if c = 13 \<and> d = 10 then cur # splitlines_from [] ds
             else cur # splitlines_from [] (d # ds))
      else splitlines_from (cur @ [c]) cs)"

definition splitlines :: "ustr \<Rightarrow> ustr list" where
  "splitlines s = splitlines_from [] s"

text \<open>
  \<^verbatim>\<open>
  def _extract_venue_names_from_text(self, text):
      if not text: return []
      venue_names = []
      for match in re.findall(r"\*\*([^*]+?)\*\*\s*[:\-]?", text):
          name = re.sub(r"\s*\([^)]*\)\s*", "", match).strip()
          if len(name) > 2: venue_names.append(name)
      for line in text.splitlines():
          s = line.strip()
          if s.startswith(("*", "-")):
              m = re.search(r"\*\*([^*]+?)\*\*", s)
              if m:
                  name = re.sub(r"\s*\([^)]*\)\s*", "", m.group(1)).strip()
                  if len(name) > 2: venue_names.append(name)
      seen = set(); out = []
      for n in venue_names:
          k = n.lower()
          if k not in seen: out.append(n); seen.add(k)
      return out[:3]
  \<close>
  \<open>span_names\<close> is what the first loop appends, \<open>bullet_name\<close> what the second loop
  appends for one line, \<open>dedup_loop\<close> the third loop.
\<close>

definition span_names :: "ustr \<Rightarrow> ustr list" where
  "span_names text = filter (\<lambda>n. 2 < length n) (map clean_name (findall_bold text))"

definition bullet_name :: "ustr \<Rightarrow> ustr list" where
  "bullet_name line =
     (let s = strip line
      in if startswith s [42] \<or> startswith s [45] then
           (case search_bold s of
              Some g \<Rightarrow> (let n = clean_name g in if 2 < length n then [n] else [])
            | None \<Rightarrow> [])
         else [])"

definition bullet_names :: "ustr \<Rightarrow> ustr list" where
  "bullet_names text = concat (map bullet_name (splitlines text))"

fun dedup_loop :: "pystr \<Rightarrow> ustr set \<Rightarrow> ustr list \<Rightarrow> ustr list \<Rightarrow> ustr list" where
  "dedup_loop U seen out [] = out"
| "dedup_loop U seen out (n # ns) =
     (let k = str_lower U n
      in if k \<notin> seen then dedup_loop U (insert k seen) (out @ [n]) ns
         else dedup_loop U seen out ns)"

definition extract_venue_names_from_text :: "pystr \<Rightarrow> ustr option \<Rightarrow> ustr list" where
  "extract_venue_names_from_text U text =
     (case text of
        None \<Rightarrow> []
      | Some t \<Rightarrow>
          if t = [] then []
          else take 3 (dedup_loop U {} [] (span_names t @ bullet_names t)))"

section \<open>The agent and its collaborators\<close>

text \<open>
  An exception raised inside a collaborator. The resolver catches it around text search
  and around the details lookup; elsewhere it propagates to the caller.
\<close>

datatype error = PyException string

text \<open>
  A coordinate pair is only handed from the geocoder to text search. A calendar date
  (year, month, day) is only handed to the forecast helper. The event date of a request
  is a date object or still a text.
\<close>

type_synonym coord = "int \<times> int"

type_synonym pydate = "int \<times> int \<times> int"

datatype when_value = WhenDate pydate | WhenText ustr

text \<open>
  The agent is \<^verbatim>\<open>self\<close> together with the functions the module imports or inherits:
  \<^verbatim>\<open>geocode_city(city, api_key)\<close>,
  \<^verbatim>\<open>places_text_search(query, api_key, location_bias, radius_m, max_results)\<close>,
  \<^verbatim>\<open>get_place_details(place_id, api_key)\<close>; \<open>parse_date\<close>, the built-ins behind
  \<^verbatim>\<open>y, m, d = map(int, when[:10].split("-")); _date(y, m, d)\<close>, with \<open>None\<close> where they
  raise; \<^verbatim>\<open>format_weather_line(city, when, maps_api_key)\<close> for a date object, which
  returns a sentence or \<^verbatim>\<open>None\<close> or raises; the prompt text (city, venue type,
  audience, guests, budget, cuisine, weather, outdoor flag); the language model
  (\<^verbatim>\<open>_call_llm_unified\<close> turns every failure into \<^verbatim>\<open>None\<close>); and the display lines of
  the venue numbered \<open>i\<close>, which are presentation only.
\<close>

record agent =
  google_api_key :: ustr
  geocode_city :: "ustr \<Rightarrow> ustr \<Rightarrow> error + coord option"
  places_text_search :: "ustr \<Rightarrow> ustr \<Rightarrow> coord option \<Rightarrow> nat \<Rightarrow> nat \<Rightarrow> error + seed list"
  get_place_details :: "ustr \<Rightarrow> ustr \<Rightarrow> error + place option"
  parse_date :: "ustr \<Rightarrow> pydate option"
  format_weather_line :: "ustr \<Rightarrow> pydate \<Rightarrow> ustr \<Rightarrow> error + ustr option"
  build_search_prompt ::
    "ustr \<Rightarrow> ustr \<Rightarrow> ustr \<Rightarrow> ustr \<Rightarrow> ustr \<Rightarrow> ustr \<Rightarrow> ustr option \<Rightarrow> bool \<Rightarrow> ustr"
  call_llm_unified :: "ustr \<Rightarrow> ustr option"
  venue_lines :: "nat \<Rightarrow> place \<Rightarrow> ustr \<Rightarrow> ustr list"

text \<open>
  The request context \<^verbatim>\<open>ctx\<close>: the keys \<^verbatim>\<open>process_request\<close> reads, each with its
  default \<^verbatim>\<open>""\<close>. \<open>ctx_when\<close> is the value of
  \<^verbatim>\<open>ctx.get("event_date") or ctx.get("date") or ctx.get("selected_date")\<close>, with \<open>None\<close>
  when all three are missing or empty.
\<close>

record request =
  ctx_city :: ustr
  ctx_location_type :: ustr
  ctx_venue_type :: ustr
  ctx_audience :: ustr
  ctx_guest_count :: ustr
  ctx_budget_venue :: ustr
  ctx_cuisine :: ustr
  ctx_weather_forecast_text :: ustr
  ctx_when :: "when_value option"

record response =
  suggestions :: "place list"
  raw :: ustr
  unified_display :: ustr
  weather_info :: "ustr option"

section \<open>Venue resolver\<close>

text \<open>
  \<^verbatim>\<open>
  queries = [f"{venue_name} {city}", venue_name,
             f"{venue_name} venue {city}", f"{venue_name} restaurant {city}"]
  \<close>
\<close>

definition resolver_queries :: "ustr \<Rightarrow> ustr \<Rightarrow> ustr list" where
  "resolver_queries venue_name city =
     [venue_name @ lit '' '' @ city,
      venue_name,
      venue_name @ lit '' venue '' @ city,
      venue_name @ lit '' restaurant '' @ city]"

text \<open>
  The score of one details record, lines 226 to 239:
  \<^verbatim>\<open>
  name = (det.get("name") or "").lower()
  addr = det.get("formatted_address") or ""
  name_words = set(venue_name.lower().split())
  overlap = len(name_words.intersection(set(name.split())))
  score = overlap
  if _in_city(addr, city): score += 2
  if ckey:
      if self._matches_cuisine(det, ckey): score += 3
      else: score -= 2
  \<close>
\<close>

definition score_details :: "pystr \<Rightarrow> ustr \<Rightarrow> ustr \<Rightarrow> ustr \<Rightarrow> place \<Rightarrow> int" where
  "score_details U venue_name city ckey det =
     (let nm = str_lower U (or_empty (name det));
          addr = or_empty (formatted_address det);
          name_words = set (split_ws (str_lower U venue_name));
          overlap = int (card (name_words \<inter> set (split_ws nm)));
          score = overlap;
          score = (if in_city U addr city then score + 2 else score);
          score = (if ckey \<noteq> [] then
                     (if matches_cuisine U det ckey then score + 3 else score - 2)
                   else score)
      in score)"

text \<open>
  The body of the inner loop over the seeds of one query: no identifier, a failing or
  empty details lookup skip the seed; otherwise the record replaces \<open>best\<close> when it
  scores strictly higher.
\<close>

definition visit_seed ::
  "agent \<Rightarrow> pystr \<Rightarrow> ustr \<Rightarrow> ustr \<Rightarrow> ustr \<Rightarrow> int \<times> place option \<Rightarrow> seed \<Rightarrow> int \<times> place option" where
  "visit_seed A U venue_name city ckey best s =
     (case seed_place_id s of
        None \<Rightarrow> best
      | Some pid \<Rightarrow>
          if pid = [] then best
          else (case get_place_details A pid (google_api_key A) of
                  Inl e \<Rightarrow> best
                | Inr None \<Rightarrow> best
                | Inr (Some det) \<Rightarrow>
                    (let score = score_details U venue_name city ckey det
                     in if fst best < score then (score, Some det) else best)))"

text \<open>The body of the outer loop: a failing text search skips the query.\<close>

definition visit_query ::
  "agent \<Rightarrow> pystr \<Rightarrow> ustr \<Rightarrow> ustr \<Rightarrow> ustr \<Rightarrow> coord option \<Rightarrow> int \<times> place option \<Rightarrow> ustr
     \<Rightarrow> int \<times> place option" where
  "visit_query A U venue_name city ckey center best q =
     (case places_text_search A q (google_api_key A) center 20000 8 of
        Inl e \<Rightarrow> best
      | Inr seeds \<Rightarrow> foldl (visit_seed A U venue_name city ckey) best seeds)"

text \<open>
  \<^verbatim>\<open>_search_venue_in_places(self, venue_name, city, cuisine="")\<close>: no key gives
  \<^verbatim>\<open>None\<close>; the geocoder is called outside any \<^verbatim>\<open>try\<close>; \<open>best\<close> starts at
  \<^verbatim>\<open>(-1, None)\<close>.
\<close>

definition search_venue_in_places ::
  "agent \<Rightarrow> pystr \<Rightarrow> ustr \<Rightarrow> ustr \<Rightarrow> ustr \<Rightarrow> error + place option" where
  "search_venue_in_places A U venue_name city cuisine =
     (if google_api_key A = [] then Inr None
      else (case (if city \<noteq> [] then geocode_city A city (google_api_key A) else Inr None) of
              Inl e \<Rightarrow> Inl e
            | Inr center \<Rightarrow>
                (let ckey = str_lower U (strip cuisine);
                     best = foldl (visit_query A U venue_name city ckey center) (- 1, None)
                              (resolver_queries venue_name city)
                 in Inr (snd best))))"

section \<open>Fallback search strategy\<close>

text \<open>The term tables of \<^verbatim>\<open>_get_fallback_venues\<close>; 305 is dotless i, 231 c-cedilla.\<close>

definition base_terms :: "(ustr \<times> ustr list) list" where
  "base_terms =
     [(lit ''indoor'', [lit ''restaurant'', lit ''cafe'', lit ''party hall'', lit ''event venue'']),
      (lit ''outdoor'', [lit ''park'', lit ''garden'', lit ''beach club'', lit ''terrace'']),
      (lit ''hybrid'', [lit ''restaurant with terrace'', lit ''event space'', lit ''venue''])]"

definition outdoor_terms :: "ustr list" where
  "outdoor_terms =
     [lit ''park'', lit ''garden'', lit ''botanical garden'', lit ''zoo'',
      lit ''beach'', lit ''beach club'', lit ''outdoor event space'',
      lit ''promenade'', lit ''terrace'', lit ''viewing terrace'',
      lit ''piknik alan'' @ [305], lit ''mesire alan'' @ [305], [231] @ lit ''ocuk park'' @ [305],
      lit ''seyir teras'' @ [305], lit ''koru'', lit ''kent orman'' @ [305],
      lit ''tabiat park'' @ [305]]"

definition CUISINE_TERMS :: "(ustr \<times> ustr list) list" where
  "CUISINE_TERMS =
     [(lit ''italian'', [lit ''italian restaurant'', lit ''italyan restoran'', lit ''pizzeria'',
         lit ''trattoria'']),
      (lit ''turkish'', [lit ''turkish restaurant'', lit ''t'' @ [252] @ lit ''rk restoran'',
         lit ''lokanta'']),
      (lit ''mediterranean'', [lit ''mediterranean restaurant'', lit ''akdeniz restoran'']),
      (lit ''asian'', [lit ''asian restaurant'', lit ''asya restoran'', lit ''sushi'', lit ''ramen'']),
      (lit ''mixed'', [lit ''international restaurant'', lit ''mixed cuisine''])]"

text \<open>
  The query list, lines 261 to 291: the outdoor terms with the city, or the cuisine
  terms first and then each generic term of the venue type, with the cuisine key in
  front when there is one.
\<close>

definition fallback_queries :: "pystr \<Rightarrow> ustr \<Rightarrow> ustr \<Rightarrow> ustr \<Rightarrow> bool \<Rightarrow> ustr list" where
  "fallback_queries U city venue_type cuisine is_outdoor =
     (if is_outdoor then map (\<lambda>t. t @ lit '' '' @ city) outdoor_terms
      else
        (let ckey = str_lower U (strip cuisine);
             cuisine_terms =
               (case map_of CUISINE_TERMS ckey of
                  Some ts \<Rightarrow> ts
                | None \<Rightarrow> if ckey \<noteq> [] then [ckey] else [])
         in map (\<lambda>term. term @ lit '' '' @ city) cuisine_terms @
            concat (map (\<lambda>term.
                      (if ckey \<noteq> [] then [ckey @ lit '' '' @ term @ lit '' '' @ city] else []) @
                      [term @ lit '' '' @ city])
                    (case map_of base_terms (str_lower U venue_type) of
                       Some ts \<Rightarrow> ts
                     | None \<Rightarrow> [lit ''venue'', lit ''restaurant'']))))"

text \<open>
  \<^verbatim>\<open>
  for q in queries:
      if len(seeds) >= 12: break
      try: seeds.extend(places_text_search(query=q, ..., radius_m=..., max_results=4))
      except Exception: continue
  \<close>
\<close>

fun collect_seeds :: "agent \<Rightarrow> coord option \<Rightarrow> nat \<Rightarrow> seed list \<Rightarrow> ustr list \<Rightarrow> seed list" where
  "collect_seeds A center radius_m seeds [] = seeds"
| "collect_seeds A center radius_m seeds (q # qs) =
     (if 12 \<le> length seeds then seeds
      else (case places_text_search A q (google_api_key A) center radius_m 4 of
              Inl e \<Rightarrow> collect_seeds A center radius_m seeds qs
            | Inr found \<Rightarrow> collect_seeds A center radius_m (seeds @ found) qs))"

text \<open>
  \<^verbatim>\<open>
  for s in seeds:
      if len(results) >= 3: break
      pid = s.get("place_id")
      if not pid: continue
      det = get_place_details(pid, self.google_api_key)
      if not det: continue
      if not _in_city(det.get("formatted_address", ""), city): continue
      if (not is_outdoor) and cuisine:
          if not self._matches_cuisine(det, cuisine): continue
      results.append(det)
  \<close>
  The details lookup stands outside any \<^verbatim>\<open>try\<close> here: its exception ends the call.
\<close>

fun collect_results ::
  "agent \<Rightarrow> pystr \<Rightarrow> ustr \<Rightarrow> ustr \<Rightarrow> bool \<Rightarrow> place list \<Rightarrow> seed list \<Rightarrow> error + place list" where
  "collect_results A U city cuisine is_outdoor results [] = Inr results"
| "collect_results A U city cuisine is_outdoor results (s # ss) =
     (if 3 \<le> length results then Inr results
      else (case seed_place_id s of
              None \<Rightarrow> collect_results A U city cuisine is_outdoor results ss
            | Some pid \<Rightarrow>
                if pid = [] then collect_results A U city cuisine is_outdoor results ss
                else (case get_place_details A pid (google_api_key A) of
                        Inl e \<Rightarrow> Inl e
                      | Inr None \<Rightarrow> collect_results A U city cuisine is_outdoor results ss
                      | Inr (Some det) \<Rightarrow>
                          if \<not> in_city U (or_empty (formatted_address det)) city
                          then collect_results A U city cuisine is_outdoor results ss
                          else if (\<not> is_outdoor \<and> cuisine \<noteq> []) \<and> \<not> matches_cuisine U det cuisine
                          then collect_results A U city cuisine is_outdoor results ss
                          else collect_results A U city cuisine is_outdoor (results @ [det]) ss)))"

text \<open>
  \<^verbatim>\<open>_get_fallback_venues(self, city, venue_type, audience, cuisine="", is_outdoor=False)\<close>.
\<close>

definition get_fallback_venues ::
  "agent \<Rightarrow> pystr \<Rightarrow> ustr \<Rightarrow> ustr \<Rightarrow> ustr \<Rightarrow> ustr \<Rightarrow> bool \<Rightarrow> error + place list" where
  "get_fallback_venues A U city venue_type audience cuisine is_outdoor =
     (if google_api_key A = [] then Inr []
      else (case (if city \<noteq> [] then geocode_city A city (google_api_key A) else Inr None) of
              Inl e \<Rightarrow> Inl e
            | Inr center \<Rightarrow>
                (let queries = fallback_queries U city venue_type cuisine is_outdoor;
                     seeds = collect_seeds A center (if is_outdoor then 20000 else 15000) [] queries
                 in collect_results A U city cuisine is_outdoor [] seeds)))"

section \<open>Orchestrator\<close>

text \<open>
  \<^verbatim>\<open>format_weather_line(city, when, ...)\<close> of \<^verbatim>\<open>utils/weather_api.py\<close> called with a
  text for \<^verbatim>\<open>when\<close> and a non-empty city: \<^verbatim>\<open>get_forecast_for_date\<close> calls the geocoder
  and then either evaluates \<^verbatim>\<open>when.isoformat()\<close> itself or returns \<^verbatim>\<open>None\<close>, upon
  which the helper evaluates \<^verbatim>\<open>when.isoformat()\<close> for its notice. A text has no such
  method, so the call always ends in an exception.
\<close>

definition format_weather_line_text :: "agent \<Rightarrow> ustr \<Rightarrow> error + ustr option" where
  "format_weather_line_text A city =
     (case geocode_city A city (google_api_key A) of
        Inl e \<Rightarrow> Inl e
      | Inr center \<Rightarrow> Inl (PyException ''AttributeError''))"

text \<open>
  \<^verbatim>\<open>
  def _get_weather_line(self, ctx):
      w = (ctx.get("weather_forecast_text") or "").strip()
      if w: return w
      city = ctx.get("city", "")
      when = ctx.get("event_date") or ctx.get("date") or ctx.get("selected_date")
      if isinstance(when, str) and len(when) >= 10:
          try:
              y, m, d = map(int, when[:10].split("-")); when = _date(y, m, d)
          except Exception:
              when = None
      if city and when:
          return format_weather_line(city, when, maps_api_key=self.google_api_key, ...)
      return "Weather information not available - please check local forecast"
  \<close>
  A text shorter than 10 characters stays a text and reaches the forecast helper. The
  helper is called outside any \<^verbatim>\<open>try\<close>.
\<close>

definition weather_not_available :: ustr where
  "weather_not_available = lit ''Weather information not available - please check local forecast''"

definition get_weather_line :: "agent \<Rightarrow> request \<Rightarrow> error + ustr option" where
  "get_weather_line A ctx =
     (let w = strip (ctx_weather_forecast_text ctx)
      in if w \<noteq> [] then Inr (Some w)
         else
           (let city = ctx_city ctx;
                when = (case ctx_when ctx of
                          Some (WhenText s) \<Rightarrow>
                            if 10 \<le> length s then map_option WhenDate (parse_date A (take 10 s))
                            else Some (WhenText s)
                        | Some (WhenDate d) \<Rightarrow> Some (WhenDate d)
                        | None \<Rightarrow> None)
            in case when of
                 Some (WhenDate d) \<Rightarrow>
                   if city \<noteq> [] then format_weather_line A city d (google_api_key A)
                   else Inr (Some weather_not_available)
               | Some (WhenText s) \<Rightarrow>
                   if city \<noteq> [] \<and> s \<noteq> [] then format_weather_line_text A city
                   else Inr (Some weather_not_available)
               | None \<Rightarrow> Inr (Some weather_not_available)))"

text \<open>
  \<^verbatim>\<open>_format_weather_and_venues\<close>. The calendar is code point 128197, the cross mark
  10060, the pin 128205. \<^verbatim>\<open>if weather_info:\<close> is false for \<^verbatim>\<open>None\<close> and for the empty
  text.
\<close>

definition no_venues_notice :: ustr where
  "no_venues_notice =
     [10060] @ lit '' No suitable venues found. Please try different search criteria.''"

definition format_weather_and_venues :: "agent \<Rightarrow> ustr option \<Rightarrow> place list \<Rightarrow> ustr \<Rightarrow> ustr" where
  "format_weather_and_venues A weather venues city =
     (let parts = (if or_empty weather \<noteq> []
                   then [[128197] @ lit '' **Weather:** '' @ or_empty weather, []] else [])
      in if venues = [] then join [10] (parts @ [no_venues_notice])
         else join [10]
                (parts @ [[128205] @ lit '' **Recommended Venues in '' @ city @ lit '':**'', []] @
                 concat (map (\<lambda>(i, v). venue_lines A i v city)
                           (zip [1 ..< Suc (length venues)] venues))))"

text \<open>The two pairs of assignments that tag a record.\<close>

definition mark_found :: "place \<Rightarrow> place" where
  "mark_found det = det\<lparr>source := Some (lit ''google_places''), match_status := Some (lit ''found'')\<rparr>"

definition mark_fallback :: "place \<Rightarrow> place" where
  "mark_fallback v = v\<lparr>source := Some (lit ''fallback_search''), match_status := Some (lit ''found'')\<rparr>"

text \<open>
  Step 2 of \<^verbatim>\<open>process_request\<close>:
  \<^verbatim>\<open>
  for n in names:
      det = self._search_venue_in_places(n, city, cuisine_effective)
      if det and (is_outdoor or not cuisine or self._matches_cuisine(det, cuisine)):
          det["source"] = "google_places"; det["match_status"] = "found"
          enriched.append(det)
  \<close>
\<close>

fun resolve_names ::
  "agent \<Rightarrow> pystr \<Rightarrow> ustr \<Rightarrow> ustr \<Rightarrow> bool \<Rightarrow> ustr \<Rightarrow> place list \<Rightarrow> ustr list \<Rightarrow> error + place list" where
  "resolve_names A U city cuisine_effective is_outdoor cuisine enriched [] = Inr enriched"
| "resolve_names A U city cuisine_effective is_outdoor cuisine enriched (n # ns) =
     (case search_venue_in_places A U n city cuisine_effective of
        Inl e \<Rightarrow> Inl e
      | Inr None \<Rightarrow> resolve_names A U city cuisine_effective is_outdoor cuisine enriched ns
      | Inr (Some det) \<Rightarrow>
          if is_outdoor \<or> cuisine = [] \<or> matches_cuisine U det cuisine
          then resolve_names A U city cuisine_effective is_outdoor cuisine
                 (enriched @ [mark_found det]) ns
          else resolve_names A U city cuisine_effective is_outdoor cuisine enriched ns)"

text \<open>
  Step 3:
  \<^verbatim>\<open>
  if not enriched:
      enriched = self._get_fallback_venues(city, venue_type, audience, cuisine_effective,
                                           is_outdoor=is_outdoor)
      for v in enriched: v["source"] = "fallback_search"; v["match_status"] = "found"
  \<close>
\<close>

definition fallback_stage ::
  "agent \<Rightarrow> pystr \<Rightarrow> ustr \<Rightarrow> ustr \<Rightarrow> ustr \<Rightarrow> ustr \<Rightarrow> bool \<Rightarrow> place list \<Rightarrow> error + place list" where
  "fallback_stage A U city venue_type audience cuisine_effective is_outdoor enriched =
     (if enriched = [] then
        (case get_fallback_venues A U city venue_type audience cuisine_effective is_outdoor of
           Inl e \<Rightarrow> Inl e
         | Inr found \<Rightarrow> Inr (map mark_fallback found))
      else Inr enriched)"

text \<open>
  Step 4:
  \<^verbatim>\<open>
  if not enriched and is_outdoor and cuisine:
      enriched = self._get_fallback_venues(city, venue_type, audience, "", is_outdoor=True)
      for v in enriched: v["source"] = "fallback_search"; v["match_status"] = "found"
  \<close>
\<close>

definition final_guard ::
  "agent \<Rightarrow> pystr \<Rightarrow> ustr \<Rightarrow> ustr \<Rightarrow> ustr \<Rightarrow> ustr \<Rightarrow> bool \<Rightarrow> place list \<Rightarrow> error + place list" where
  "final_guard A U city venue_type audience cuisine is_outdoor enriched =
     (if enriched = [] \<and> is_outdoor \<and> cuisine \<noteq> [] then
        (case get_fallback_venues A U city venue_type audience [] True of
           Inl e \<Rightarrow> Inl e
         | Inr found \<Rightarrow> Inr (map mark_fallback found))
      else Inr enriched)"

text \<open>
  \<^verbatim>\<open>process_request(self, ctx)\<close>. The weather line is computed first and outside any
  \<^verbatim>\<open>try\<close>, so its exception ends the request. \<^verbatim>\<open>if names:\<close> around the loop of step 2
  changes nothing, the loop over no names appends nothing.
\<close>

definition process_request :: "agent \<Rightarrow> pystr \<Rightarrow> request \<Rightarrow> error + response" where
  "process_request A U ctx =
     (let city = ctx_city ctx;
          venue_type = (if ctx_location_type ctx \<noteq> [] then ctx_location_type ctx
                        else ctx_venue_type ctx);
          audience = ctx_audience ctx;
          guest_count = ctx_guest_count ctx;
          budget = ctx_budget_venue ctx;
          cuisine = ctx_cuisine ctx
      in case get_weather_line A ctx of
           Inl e \<Rightarrow> Inl e
         | Inr weather \<Rightarrow>
      (let is_outdoor = is_outdoor_type U venue_type;
          cuisine_effective = (if is_outdoor then [] else cuisine);
          prompt = build_search_prompt A city venue_type audience guest_count budget
                     cuisine_effective weather is_outdoor;
          llm_response = call_llm_unified A prompt;
          names = (case llm_response of
                     None \<Rightarrow> []
                   | Some t \<Rightarrow> if t = [] then [] else extract_venue_names_from_text U (Some t))
      in case resolve_names A U city cuisine_effective is_outdoor cuisine [] names of
           Inl e \<Rightarrow> Inl e
         | Inr enriched \<Rightarrow>
             (case fallback_stage A U city venue_type audience cuisine_effective is_outdoor enriched of
                Inl e \<Rightarrow> Inl e
              | Inr enriched \<Rightarrow>
                  (case final_guard A U city venue_type audience cuisine is_outdoor enriched of
                     Inl e \<Rightarrow> Inl e
                   | Inr enriched \<Rightarrow>
                       Inr \<lparr> suggestions = enriched,
                             raw = (case llm_response of
                                      None \<Rightarrow> lit ''No LLM response available''
                                    | Some t \<Rightarrow> if t = [] then lit ''No LLM response available'' else t),
                             unified_display = format_weather_and_venues A weather enriched city,
                             weather_info = weather \<rparr>))))"

section \<open>Construction of the agent\<close>

text \<open>
  What the constructors read: the environment variables \<^verbatim>\<open>GOOGLE_API_KEY\<close> and
  \<^verbatim>\<open>GOOGLE_MAPS_API_KEY\<close>, and \<open>secret_maps\<close>, the value of \<^verbatim>\<open>_secret_maps\<close> after the
  \<^verbatim>\<open>try\<close> around the secrets store (\<open>None\<close> when the store is missing or raises).
\<close>

record environ =
  env_GOOGLE_API_KEY :: "ustr option"
  env_GOOGLE_MAPS_API_KEY :: "ustr option"
  secret_maps :: "ustr option"

text \<open>
  \<^verbatim>\<open>BaseAgent.__init__\<close>:
  \<^verbatim>\<open>
  api_key = os.environ.get("GOOGLE_API_KEY")
  if not api_key:
      raise RuntimeError("Missing GOOGLE_API_KEY. ...")
  \<close>
\<close>

definition base_agent_init :: "environ \<Rightarrow> error + unit" where
  "base_agent_init E =
     (if or_empty (env_GOOGLE_API_KEY E) = [] then Inl (PyException ''RuntimeError'') else Inr ())"

text \<open>\<^verbatim>\<open>a or b or c or ""\<close> over optional strings.\<close>

fun first_nonempty :: "ustr option list \<Rightarrow> ustr" where
  "first_nonempty [] = []"
| "first_nonempty (x # xs) = (if or_empty x \<noteq> [] then or_empty x else first_nonempty xs)"

text \<open>
  \<^verbatim>\<open>VenueAgent.__init__\<close> calls \<^verbatim>\<open>super().__init__\<close> first and then sets
  \<^verbatim>\<open>
  self.google_api_key = (_secret_maps or os.getenv("GOOGLE_MAPS_API_KEY")
                         or os.getenv("GOOGLE_API_KEY") or "")
  \<close>
  The result is the lookup key of the constructed agent.
\<close>

definition venue_agent_key :: "environ \<Rightarrow> error + ustr" where
  "venue_agent_key E =
     (case base_agent_init E of
        Inl e \<Rightarrow> Inl e
      | Inr u \<Rightarrow>
          Inr (first_nonempty [secret_maps E, env_GOOGLE_MAPS_API_KEY E, env_GOOGLE_API_KEY E]))"

text \<open>
  \<^verbatim>\<open>VenueAgent().process_request(ctx)\<close>: the agent is constructed in the environment,
  its collaborators are those of \<open>A\<close>.
\<close>

definition venue_agent_request :: "environ \<Rightarrow> agent \<Rightarrow> pystr \<Rightarrow> request \<Rightarrow> error + response" where
  "venue_agent_request E A U ctx =
     (case venue_agent_key E of
        Inl e \<Rightarrow> Inl e
      | Inr key \<Rightarrow> process_request (A\<lparr> google_api_key := key \<rparr>) U ctx)"

section \<open>Notions used in the statements\<close>

text \<open>
  What the normalizer needs of the case folding built-in: folding a letter that is not
  a key of the table never yields a key of the table, and folded text is closed under
  folding. Unicode full case folding has both properties.
\<close>

definition casefold_stable :: "pystr \<Rightarrow> bool" where
  "casefold_stable U \<longleftrightarrow>
     (\<forall>c. c \<notin> fst ` set tr_table \<longrightarrow>
        (\<forall>d \<in> set (casefold_cp U c). d \<notin> fst ` set tr_table) \<and>
        casefold U (casefold_cp U c) = casefold_cp U c)"

text \<open>
  The records the resolver looks at, in the order it looks at them: for each of the
  four queries whose text search returns, the details of each seed that has an
  identifier and whose details lookup returns a record.
\<close>

definition seed_details :: "agent \<Rightarrow> seed \<Rightarrow> place option" where
  "seed_details A s =
     (case seed_place_id s of
        None \<Rightarrow> None
      | Some pid \<Rightarrow>
          if pid = [] then None
          else (case get_place_details A pid (google_api_key A) of
                  Inl e \<Rightarrow> None
                | Inr det \<Rightarrow> det))"

definition query_records :: "agent \<Rightarrow> coord option \<Rightarrow> ustr \<Rightarrow> place list" where
  "query_records A center q =
     (case places_text_search A q (google_api_key A) center 20000 8 of
        Inl e \<Rightarrow> []
      | Inr seeds \<Rightarrow> List.map_filter (seed_details A) seeds)"

definition resolved_records :: "agent \<Rightarrow> ustr \<Rightarrow> ustr \<Rightarrow> coord option \<Rightarrow> place list" where
  "resolved_records A venue_name city center =
     concat (map (query_records A center) (resolver_queries venue_name city))"

text \<open>
  The record with the highest score, the first one among equals: the first record that
  no record of the list outscores.
\<close>

definition highest_first :: "('a \<Rightarrow> int) \<Rightarrow> 'a list \<Rightarrow> 'a option" where
  "highest_first sc cands = List.find (\<lambda>d. list_all (\<lambda>e. sc e \<le> sc d) cands) cands"

text \<open>One update of the running best by a record.\<close>

definition consider_record :: "('a \<Rightarrow> int) \<Rightarrow> int \<times> 'a option \<Rightarrow> 'a \<Rightarrow> int \<times> 'a option" where
  "consider_record sc best det = (if fst best < sc det then (sc det, Some det) else best)"

text \<open>
  The values \<^verbatim>\<open>process_request\<close> computes from the context before it resolves names:
  the venue type, the outdoor flag, the effective cuisine, the weather line (when it is
  obtained) and the candidate names extracted from the answer of the language model.
\<close>

definition request_venue_type :: "request \<Rightarrow> ustr" where
  "request_venue_type ctx =
     (if ctx_location_type ctx \<noteq> [] then ctx_location_type ctx else ctx_venue_type ctx)"

definition request_outdoor :: "pystr \<Rightarrow> request \<Rightarrow> bool" where
  "request_outdoor U ctx = is_outdoor_type U (request_venue_type ctx)"

definition effective_cuisine :: "pystr \<Rightarrow> request \<Rightarrow> ustr" where
  "effective_cuisine U ctx = (if request_outdoor U ctx then [] else ctx_cuisine ctx)"

definition request_weather :: "agent \<Rightarrow> request \<Rightarrow> ustr option" where
  "request_weather A ctx = (case get_weather_line A ctx of Inl e \<Rightarrow> None | Inr w \<Rightarrow> w)"

definition request_names :: "agent \<Rightarrow> pystr \<Rightarrow> request \<Rightarrow> ustr list" where
  "request_names A U ctx =
     (case call_llm_unified A
             (build_search_prompt A (ctx_city ctx) (request_venue_type ctx) (ctx_audience ctx)
                (ctx_guest_count ctx) (ctx_budget_venue ctx) (effective_cuisine U ctx)
                (request_weather A ctx) (request_outdoor U ctx)) of
        None \<Rightarrow> []
      | Some t \<Rightarrow> if t = [] then [] else extract_venue_names_from_text U (Some t))"

text \<open>The record a resolver call yields, if it returns one.\<close>

definition resolved_option :: "error + place option \<Rightarrow> place option" where
  "resolved_option x = (case x of Inl e \<Rightarrow> None | Inr det \<Rightarrow> det)"

text \<open>
  The records of step 2 in the order of the names: those the resolver returns for the
  effective cuisine and that pass the test of the \<^verbatim>\<open>if\<close>, made with the requested
  cuisine.
\<close>

definition accepted_records :: "agent \<Rightarrow> pystr \<Rightarrow> request \<Rightarrow> place list" where
  "accepted_records A U ctx =
     filter (\<lambda>det. request_outdoor U ctx \<or> ctx_cuisine ctx = [] \<or>
                    matches_cuisine U det (ctx_cuisine ctx))
       (List.map_filter
          (\<lambda>n. resolved_option
                 (search_venue_in_places A U n (ctx_city ctx) (effective_cuisine U ctx)))
          (request_names A U ctx))"

text \<open>\<^verbatim>\<open>process_request\<close> with step 4, the final guard, taken out.\<close>

definition process_request_without_final_guard :: "agent \<Rightarrow> pystr \<Rightarrow> request \<Rightarrow> error + response" where
  "process_request_without_final_guard A U ctx =
     (let city = ctx_city ctx;
          venue_type = (if ctx_location_type ctx \<noteq> [] then ctx_location_type ctx
                        else ctx_venue_type ctx);
          audience = ctx_audience ctx;
          guest_count = ctx_guest_count ctx;
          budget = ctx_budget_venue ctx;
          cuisine = ctx_cuisine ctx
      in case get_weather_line A ctx of
           Inl e \<Rightarrow> Inl e
         | Inr weather \<Rightarrow>
      (let is_outdoor = is_outdoor_type U venue_type;
          cuisine_effective = (if is_outdoor then [] else cuisine);
          prompt = build_search_prompt A city venue_type audience guest_count budget
                     cuisine_effective weather is_outdoor;
          llm_response = call_llm_unified A prompt;
          names = (case llm_response of
                     None \<Rightarrow> []
                   | Some t \<Rightarrow> if t = [] then [] else extract_venue_names_from_text U (Some t))
      in case resolve_names A U city cuisine_effective is_outdoor cuisine [] names of
           Inl e \<Rightarrow> Inl e
         | Inr enriched \<Rightarrow>
             (case fallback_stage A U city venue_type audience cuisine_effective is_outdoor enriched of
                Inl e \<Rightarrow> Inl e
              | Inr enriched \<Rightarrow>
                  Inr \<lparr> suggestions = enriched,
                        raw = (case llm_response of
                                 None \<Rightarrow> lit ''No LLM response available''
                               | Some t \<Rightarrow> if t = [] then lit ''No LLM response available'' else t),
                        unified_display = format_weather_and_venues A weather enriched city,
                        weather_info = weather \<rparr>)))"




text \<open>
  A small world for concrete runs. Text search answers every query with the same two
  seeds; the first resolves to a restaurant in Paris, the second to a bistro in Lyon
  whose name carries the word French. The language model answers with one bold name.
\<close>

definition rec_jardin :: place where
  "rec_jardin =
     \<lparr> place_id = Some (lit ''a''), name = Some (lit ''Le Jardin Restaurant''),
       formatted_address = Some (lit ''1 Rue X, Paris''), website = None, serves_cuisine = None,
       editorial_overview = None, types = None, source = Some (lit ''google_places''),
       match_status = None \<rparr>"

definition rec_bistro :: place where
  "rec_bistro =
     \<lparr> place_id = Some (lit ''b''), name = Some (lit ''French Bistro''),
       formatted_address = Some (lit ''2 Quai Y, Lyon''), website = None, serves_cuisine = None,
       editorial_overview = None, types = None, source = Some (lit ''google_places''),
       match_status = None \<rparr>"

definition seed_a :: seed where
  "seed_a = \<lparr> seed_place_id = Some (lit ''a''), seed_name = Some (lit ''Le Jardin Restaurant'') \<rparr>"

definition seed_b :: seed where
  "seed_b = \<lparr> seed_place_id = Some (lit ''b''), seed_name = Some (lit ''French Bistro'') \<rparr>"

definition demo_agent :: agent where
  "demo_agent =
     \<lparr> google_api_key = lit ''key'',
       geocode_city = (\<lambda>city key. Inr None),
       places_text_search = (\<lambda>q key bias radius_m max_results.
          Inr [seed_a, seed_b]),
       get_place_details = (\<lambda>pid key.
          if pid = lit ''a'' then Inr (Some rec_jardin)
          else if pid = lit ''b'' then Inr (Some rec_bistro)
          else Inr None),
       parse_date = (\<lambda>s. None),
       format_weather_line = (\<lambda>city when key. Inr (Some (lit ''n/a''))),
       build_search_prompt = (\<lambda>city venue_type audience guests budget cuisine weather outdoor. []),
       call_llm_unified = (\<lambda>prompt. Some (lit ''**Le Jardin**: a garden room'')),
       venue_lines = (\<lambda>i v city. [or_empty (name v), []]) \<rparr>"

text \<open>
  A request for a French indoor venue in Paris, and the demo world without a lookup
  key.
\<close>

definition demo_request :: request where
  "demo_request =
     \<lparr> ctx_city = lit ''Paris'', ctx_location_type = lit ''Indoor'', ctx_venue_type = [],
       ctx_audience = lit ''Kids'', ctx_guest_count = lit ''12'', ctx_budget_venue = lit ''1200'',
       ctx_cuisine = lit ''French'', ctx_weather_forecast_text = lit ''Sunny'', ctx_when = None \<rparr>"

definition keyless_agent :: agent where
  "keyless_agent = demo_agent\<lparr> google_api_key := [] \<rparr>"

text \<open>
  An environment without any credentials, one with the model key only, and a request
  whose date is the text of a year.
\<close>

definition no_credentials :: environ where
  "no_credentials =
     \<lparr> env_GOOGLE_API_KEY = None, env_GOOGLE_MAPS_API_KEY = None, secret_maps = None \<rparr>"

definition model_key_only :: environ where
  "model_key_only =
     \<lparr> env_GOOGLE_API_KEY = Some (lit ''g-key''), env_GOOGLE_MAPS_API_KEY = None,
       secret_maps = None \<rparr>"

definition year_request :: request where
  "year_request =
     demo_request\<lparr> ctx_weather_forecast_text := [], ctx_when := Some (WhenText (lit ''2025'')) \<rparr>"

section \<open>Properties of the normalizer and the city test\<close>

lemma translate_cp_not_key: "translate_cp c \<notin> fst ` set tr_table"
  by (simp add: translate_cp_def tr_table_def)

lemma translate_cp_fixed: "c \<notin> fst ` set tr_table \<Longrightarrow> translate_cp c = c"
  by (simp add: translate_cp_def tr_table_def)

lemma normalize_tr_append: "normalize_tr U (a @ b) = normalize_tr U a @ normalize_tr U b"
  by (simp add: normalize_tr_def casefold_def)

lemma normalize_tr_Cons:
  "normalize_tr U (c # s) = casefold_cp U (translate_cp c) @ normalize_tr U s"
  by (simp add: normalize_tr_def casefold_def)

lemma normalize_tr_folded:
  assumes "casefold_stable U"
  shows "normalize_tr U (casefold_cp U (translate_cp c)) = casefold_cp U (translate_cp c)"
proof -
  let ?w = "casefold_cp U (translate_cp c)"
  have nk: "\<forall>d \<in> set ?w. d \<notin> fst ` set tr_table" and fx: "casefold U ?w = ?w"
    using assms translate_cp_not_key[of c] unfolding casefold_stable_def by blast+
  have "map translate_cp ?w = ?w"
    using nk by (simp add: map_idI translate_cp_fixed)
  then show ?thesis using fx by (simp add: normalize_tr_def)
qed

lemma ascii_casefold_stable: "casefold_stable ascii_str"
  by (auto simp: casefold_stable_def ascii_str_def ascii_lower_cp_def casefold_def tr_table_def)

lemma startswith_iff: "startswith s p \<longleftrightarrow> (\<exists>q. s = p @ q)"
  by (induction s p rule: startswith.induct) auto

lemma str_contains_iff: "str_contains s sub \<longleftrightarrow> (\<exists>p q. s = p @ sub @ q)"
proof (induction s)
  case Nil
  show ?case by simp
next
  case (Cons c cs)
  show ?case
  proof
    assume "str_contains (c # cs) sub"
    then consider "startswith (c # cs) sub" | "str_contains cs sub" by auto
    then show "\<exists>p q. c # cs = p @ sub @ q"
    proof cases
      case 1
      then obtain q where "c # cs = sub @ q" by (auto simp: startswith_iff)
      then have "c # cs = [] @ sub @ q" by simp
      then show ?thesis by blast
    next
      case 2
      then obtain p q where "cs = p @ sub @ q" using Cons.IH by blast
      then have "c # cs = (c # p) @ sub @ q" by simp
      then show ?thesis by blast
    qed
  next
    assume "\<exists>p q. c # cs = p @ sub @ q"
    then obtain p q where pq: "c # cs = p @ sub @ q" by blast
    show "str_contains (c # cs) sub"
    proof (cases p)
      case Nil
      then have "startswith (c # cs) sub" using pq by (auto simp: startswith_iff)
      then show ?thesis by simp
    next
      case (Cons a p')
      then have "cs = p' @ sub @ q" using pq by simp
      then have "str_contains cs sub" using Cons.IH by blast
      then show ?thesis by simp
    qed
  qed
qed

text \<open>The definitions a concrete run on ASCII text unfolds.\<close>

lemmas ascii_eval =
  normalize_tr_def casefold_def ascii_str_def ascii_lower_cp_def translate_cp_def tr_table_def
  lit_def isspace_def strip_def lstrip_def rstrip_def

text \<open>
  C7, as the code has it. The city test is true exactly when the address and the city
  are both non-empty and the normalized city occurs inside the normalized address: one
  direction only. So it is false when neither normalized string occurs inside the
  other, but it is also false when only the address occurs inside the city, and for an
  empty city.
\<close>

theorem in_city_iff:
  "(in_city U addr city \<longleftrightarrow>
      addr \<noteq> [] \<and> city \<noteq> [] \<and> (\<exists>p q. normalize_tr U addr = p @ normalize_tr U city @ q)) \<and>
   ((\<nexists>p q. normalize_tr U addr = p @ normalize_tr U city @ q) \<and>
    (\<nexists>p q. normalize_tr U city = p @ normalize_tr U addr @ q) \<longrightarrow> \<not> in_city U addr city)"
  by (simp add: in_city_def str_contains_iff)

text \<open>An address in the Kizilay quarter, written with dotless i (305), and the city Ankara.\<close>

theorem in_city_iff_witness:
  "in_city ascii_str (lit ''K'' @ [305] @ lit ''z'' @ [305] @ lit ''lay, ANKARA'') (lit ''Ankara'') \<and>
   (\<exists>p q. normalize_tr ascii_str (lit ''K'' @ [305] @ lit ''z'' @ [305] @ lit ''lay, ANKARA'')
            = p @ normalize_tr ascii_str (lit ''Ankara'') @ q)"
proof -
  have "in_city ascii_str (lit ''K'' @ [305] @ lit ''z'' @ [305] @ lit ''lay, ANKARA'') (lit ''Ankara'')"
    by (simp add: in_city_def ascii_eval)
  then show ?thesis
    using in_city_iff[of ascii_str "lit ''K'' @ [305] @ lit ''z'' @ [305] @ lit ''lay, ANKARA''" "lit ''Ankara''"]
    by blast
qed

text \<open>
  C7 as stated fails. The normalized address \<open>ankara\<close> occurs inside the normalized
  city \<open>ankara turkey\<close>, and the normalized empty city occurs inside every address;
  the test is false both times.
\<close>

theorem in_city_not_bidirectional:
  "str_contains (normalize_tr ascii_str (lit ''Ankara Turkey'')) (normalize_tr ascii_str (lit ''Ankara'')) \<and>
   \<not> in_city ascii_str (lit ''Ankara'') (lit ''Ankara Turkey'') \<and>
   str_contains (normalize_tr ascii_str (lit ''Ankara'')) (normalize_tr ascii_str []) \<and>
   \<not> in_city ascii_str (lit ''Ankara'') []"
  by (simp add: in_city_def ascii_eval)

text \<open>
  C8. Normalization is idempotent: for every string, normalizing the normalized string
  gives the normalized string again. The case folding is the built-in's, for which the
  two Unicode facts of \<open>casefold_stable\<close> are assumed; the substitution table is the
  source's.
\<close>

theorem normalize_tr_idempotent:
  assumes "casefold_stable U"
  shows "normalize_tr U (normalize_tr U s) = normalize_tr U s"
proof (induction s)
  case Nil
  show ?case by (simp add: normalize_tr_def casefold_def)
next
  case (Cons c s)
  then show ?case
    by (simp add: normalize_tr_Cons normalize_tr_append normalize_tr_folded[OF assms])
qed

text \<open>The district name Kadikoy in capitals, with dotted capital I (304) and O-umlaut (214).\<close>

theorem normalize_tr_idempotent_witness:
  "casefold_stable ascii_str \<and>
   normalize_tr ascii_str (lit ''KAD'' @ [304, 75, 214, 89]) = lit ''kadikoy'' \<and>
   normalize_tr ascii_str (normalize_tr ascii_str (lit ''KAD'' @ [304, 75, 214, 89])) = lit ''kadikoy''"
proof -
  have e: "normalize_tr ascii_str (lit ''KAD'' @ [304, 75, 214, 89]) = lit ''kadikoy''"
    by (simp add: normalize_tr_def casefold_def ascii_str_def ascii_lower_cp_def
        translate_cp_def tr_table_def lit_def)
  show ?thesis
    using normalize_tr_idempotent[OF ascii_casefold_stable, of "lit ''KAD'' @ [304, 75, 214, 89]"]
      ascii_casefold_stable e by simp
qed

section \<open>Properties of the resolver\<close>

lemma visit_seed_consider:
  "visit_seed A U vn city ckey best s =
     (case seed_details A s of
        None \<Rightarrow> best
      | Some det \<Rightarrow> consider_record (score_details U vn city ckey) best det)"
  by (simp add: visit_seed_def seed_details_def consider_record_def Let_def
      split: option.splits sum.splits)

lemma foldl_map_filter:
  "foldl (\<lambda>b s. case f s of None \<Rightarrow> b | Some d \<Rightarrow> g b d) b0 xs = foldl g b0 (List.map_filter f xs)"
  by (induction xs arbitrary: b0) (auto simp: List.map_filter_simps split: option.splits)

lemma foldl_visit_seed:
  "foldl (visit_seed A U vn city ckey) best seeds =
   foldl (consider_record (score_details U vn city ckey)) best (List.map_filter (seed_details A) seeds)"
proof -
  have "visit_seed A U vn city ckey =
          (\<lambda>b s. case seed_details A s of
                    None \<Rightarrow> b
                  | Some det \<Rightarrow> consider_record (score_details U vn city ckey) b det)"
    by (intro ext) (rule visit_seed_consider)
  then show ?thesis by (simp only: foldl_map_filter)
qed

lemma visit_query_consider:
  "visit_query A U vn city ckey center best q =
   foldl (consider_record (score_details U vn city ckey)) best (query_records A center q)"
  by (simp add: visit_query_def query_records_def foldl_visit_seed split: sum.splits)

lemma foldl_visit_query:
  "foldl (visit_query A U vn city ckey center) best qs =
   foldl (consider_record (score_details U vn city ckey)) best (concat (map (query_records A center) qs))"
  by (induction qs arbitrary: best) (simp_all add: visit_query_consider)

lemma foldl_consider_cases:
  "(list_all (\<lambda>d. sc d \<le> m) cands \<and> foldl (consider_record sc) (m, r) cands = (m, r)) \<or>
   (\<exists>ps d ss. cands = ps @ d # ss \<and> list_all (\<lambda>e. sc e < sc d) ps \<and> list_all (\<lambda>e. sc e \<le> sc d) ss \<and>
       m < sc d \<and> foldl (consider_record sc) (m, r) cands = (sc d, Some d))"
proof (induction cands arbitrary: m r)
  case Nil
  show ?case by simp
next
  case (Cons x xs)
  show ?case
  proof (cases "m < sc x")
    case True
    then have step: "foldl (consider_record sc) (m, r) (x # xs) = foldl (consider_record sc) (sc x, Some x) xs"
      by (simp add: consider_record_def)
    from Cons.IH[of "sc x" "Some x"] show ?thesis
    proof
      assume a: "list_all (\<lambda>d. sc d \<le> sc x) xs \<and> foldl (consider_record sc) (sc x, Some x) xs = (sc x, Some x)"
      have "x # xs = [] @ x # xs \<and> list_all (\<lambda>e. sc e < sc x) [] \<and> list_all (\<lambda>e. sc e \<le> sc x) xs \<and>
              m < sc x \<and> foldl (consider_record sc) (m, r) (x # xs) = (sc x, Some x)"
        using a True step by simp
      then show ?thesis by blast
    next
      assume "\<exists>ps d ss. xs = ps @ d # ss \<and> list_all (\<lambda>e. sc e < sc d) ps \<and> list_all (\<lambda>e. sc e \<le> sc d) ss \<and>
              sc x < sc d \<and> foldl (consider_record sc) (sc x, Some x) xs = (sc d, Some d)"
      then obtain ps d ss where b: "xs = ps @ d # ss" "list_all (\<lambda>e. sc e < sc d) ps"
        "list_all (\<lambda>e. sc e \<le> sc d) ss" "sc x < sc d"
        "foldl (consider_record sc) (sc x, Some x) xs = (sc d, Some d)" by blast
      have "x # xs = (x # ps) @ d # ss" using b(1) by simp
      moreover have "list_all (\<lambda>e. sc e < sc d) (x # ps)" using b(2,4) by simp
      moreover have "m < sc d" using True b(4) by linarith
      ultimately have "x # xs = (x # ps) @ d # ss \<and> list_all (\<lambda>e. sc e < sc d) (x # ps) \<and>
          list_all (\<lambda>e. sc e \<le> sc d) ss \<and> m < sc d \<and>
          foldl (consider_record sc) (m, r) (x # xs) = (sc d, Some d)"
        using b(3,5) step by simp
      then show ?thesis by blast
    qed
  next
    case False
    then have step: "foldl (consider_record sc) (m, r) (x # xs) = foldl (consider_record sc) (m, r) xs"
      by (simp add: consider_record_def)
    from Cons.IH[of m r] show ?thesis
    proof
      assume "list_all (\<lambda>d. sc d \<le> m) xs \<and> foldl (consider_record sc) (m, r) xs = (m, r)"
      then show ?thesis using False step by simp
    next
      assume "\<exists>ps d ss. xs = ps @ d # ss \<and> list_all (\<lambda>e. sc e < sc d) ps \<and> list_all (\<lambda>e. sc e \<le> sc d) ss \<and>
              m < sc d \<and> foldl (consider_record sc) (m, r) xs = (sc d, Some d)"
      then obtain ps d ss where b: "xs = ps @ d # ss" "list_all (\<lambda>e. sc e < sc d) ps"
        "list_all (\<lambda>e. sc e \<le> sc d) ss" "m < sc d"
        "foldl (consider_record sc) (m, r) xs = (sc d, Some d)" by blast
      have "x # xs = (x # ps) @ d # ss" using b(1) by simp
      moreover have "list_all (\<lambda>e. sc e < sc d) (x # ps)" using b(2,4) False by simp
      ultimately have "x # xs = (x # ps) @ d # ss \<and> list_all (\<lambda>e. sc e < sc d) (x # ps) \<and>
          list_all (\<lambda>e. sc e \<le> sc d) ss \<and> m < sc d \<and>
          foldl (consider_record sc) (m, r) (x # xs) = (sc d, Some d)"
        using b(3,4,5) step by simp
      then show ?thesis by blast
    qed
  qed
qed

lemma find_append_cases:
  "List.find P (xs @ ys) = (case List.find P xs of None \<Rightarrow> List.find P ys | Some x \<Rightarrow> Some x)"
  by (induction xs) auto

lemma highest_first_split:
  assumes "list_all (\<lambda>e. sc e < sc d) ps" "list_all (\<lambda>e. sc e \<le> sc d) ss"
  shows "highest_first sc (ps @ d # ss) = Some d"
proof -
  let ?P = "\<lambda>x. list_all (\<lambda>e. sc e \<le> sc x) (ps @ d # ss)"
  have "\<not> ?P x" if "x \<in> set ps" for x
  proof -
    have "sc x < sc d" using assms(1) that by (simp add: list_all_iff)
    then show ?thesis by (auto simp: list_all_iff)
  qed
  then have "List.find ?P ps = None" by (simp add: find_None_iff)
  moreover have "?P d" using assms by (auto simp: list_all_iff intro: less_imp_le)
  ultimately show ?thesis by (simp add: highest_first_def find_append_cases)
qed

lemma highest_first_le:
  assumes "highest_first sc cands = Some d"
  shows "d \<in> set cands \<and> (\<forall>e \<in> set cands. sc e \<le> sc d)"
  using assms by (auto simp: highest_first_def find_Some_iff list_all_iff)

lemma snd_foldl_consider:
  "snd (foldl (consider_record sc) (m, None) cands) =
     (case highest_first sc cands of
        Some d \<Rightarrow> if m < sc d then Some d else None
      | None \<Rightarrow> None)"
proof -
  from foldl_consider_cases[of sc m cands None] show ?thesis
  proof
    assume a: "list_all (\<lambda>d. sc d \<le> m) cands \<and> foldl (consider_record sc) (m, None) cands = (m, None)"
    show ?thesis
    proof (cases "highest_first sc cands")
      case None
      then show ?thesis using a by simp
    next
      case (Some d)
      have "d \<in> set cands" using highest_first_le[OF Some] by blast
      then have "sc d \<le> m" using a by (simp add: list_all_iff)
      then show ?thesis using a Some by simp
    qed
  next
    assume "\<exists>ps d ss. cands = ps @ d # ss \<and> list_all (\<lambda>e. sc e < sc d) ps \<and> list_all (\<lambda>e. sc e \<le> sc d) ss \<and>
       m < sc d \<and> foldl (consider_record sc) (m, None) cands = (sc d, Some d)"
    then obtain ps d ss where b: "cands = ps @ d # ss" "list_all (\<lambda>e. sc e < sc d) ps"
      "list_all (\<lambda>e. sc e \<le> sc d) ss" "m < sc d"
      "foldl (consider_record sc) (m, None) cands = (sc d, Some d)" by blast
    have "highest_first sc cands = Some d" unfolding b(1) by (rule highest_first_split[OF b(2,3)])
    then show ?thesis using b(4,5) by simp
  qed
qed

lemma score_details_eq:
  "score_details U venue_name city ckey det =
     int (card (set (split_ws (str_lower U venue_name)) \<inter>
                set (split_ws (str_lower U (or_empty (name det)))))) +
     (if in_city U (or_empty (formatted_address det)) city then 2 else 0) +
     (if ckey = [] then 0 else if matches_cuisine U det ckey then 3 else - 2)"
  by (simp add: score_details_def Let_def)

lemma search_venue_in_places_select:
  assumes "google_api_key A \<noteq> []"
    and "(if city \<noteq> [] then geocode_city A city (google_api_key A) else Inr None) = Inr center"
  shows "search_venue_in_places A U venue_name city cuisine =
           Inr (case highest_first (score_details U venue_name city (str_lower U (strip cuisine)))
                       (resolved_records A venue_name city center) of
                  Some det \<Rightarrow>
                    if - 1 < score_details U venue_name city (str_lower U (strip cuisine)) det
                    then Some det else None
                | None \<Rightarrow> None)"
proof -
  have "search_venue_in_places A U venue_name city cuisine =
          Inr (snd (foldl (consider_record (score_details U venue_name city (str_lower U (strip cuisine))))
                      (- 1, None) (resolved_records A venue_name city center)))"
    using assms
    by (simp add: search_venue_in_places_def Let_def foldl_visit_query resolved_records_def)
  then show ?thesis by (simp add: snd_foldl_consider)
qed

lemma score_jardin_french: "score_details ascii_str (lit ''Le Jardin'') (lit ''Paris'') (lit ''french'') rec_jardin = 2"
  by (simp add: score_details_eq split_ws_def in_city_def matches_cuisine_def CUISINE_KEYS_def
      rec_jardin_def rec_bistro_def or_empty_def Let_def ascii_eval)

lemma score_bistro_french: "score_details ascii_str (lit ''Le Jardin'') (lit ''Paris'') (lit ''french'') rec_bistro = 3"
  by (simp add: score_details_eq split_ws_def in_city_def matches_cuisine_def CUISINE_KEYS_def
      rec_jardin_def rec_bistro_def or_empty_def Let_def ascii_eval)

lemma demo_records_jardin: "resolved_records demo_agent (lit ''Le Jardin'') (lit ''Paris'') None =
  [rec_jardin, rec_bistro, rec_jardin, rec_bistro, rec_jardin, rec_bistro, rec_jardin, rec_bistro]"
  by (simp add: resolved_records_def resolver_queries_def query_records_def demo_agent_def
      seed_details_def List.map_filter_simps seed_a_def seed_b_def lit_def)

lemma ckey_french: "str_lower ascii_str (strip (lit ''French'')) = lit ''french''"
  by (simp add: ascii_eval)

lemma score_jardin_thai: "score_details ascii_str (lit ''Zorba'') (lit ''Rome'') (lit ''thai'') rec_jardin = - 2"
  by (simp add: score_details_eq split_ws_def in_city_def matches_cuisine_def CUISINE_KEYS_def
      rec_jardin_def rec_bistro_def or_empty_def Let_def ascii_eval)

lemma score_bistro_thai: "score_details ascii_str (lit ''Zorba'') (lit ''Rome'') (lit ''thai'') rec_bistro = - 2"
  by (simp add: score_details_eq split_ws_def in_city_def matches_cuisine_def CUISINE_KEYS_def
      rec_jardin_def rec_bistro_def or_empty_def Let_def ascii_eval)

lemma demo_records_zorba: "resolved_records demo_agent (lit ''Zorba'') (lit ''Rome'') None =
  [rec_jardin, rec_bistro, rec_jardin, rec_bistro, rec_jardin, rec_bistro, rec_jardin, rec_bistro]"
  by (simp add: resolved_records_def resolver_queries_def query_records_def demo_agent_def
      seed_details_def List.map_filter_simps seed_a_def seed_b_def lit_def)

lemma ckey_thai: "str_lower ascii_str (strip (lit ''Thai'')) = lit ''thai''"
  by (simp add: ascii_eval)

text \<open>
  C1, as the code has it. With a key configured and a geocoder that returns, the
  resolver scores every resolved record as the number of distinct words the lowered
  candidate name and the lowered record name share, plus 2 when the city test accepts
  the record's address, and, when the cuisine key (the requested cuisine trimmed and
  lowered) is not empty, plus 3 when the cuisine matcher accepts the record and minus 2
  otherwise. It returns the first record with the highest score over the four queries
  and all their seeds if that score exceeds the initial \<open>-1\<close>, and nothing otherwise.
\<close>

theorem search_venue_in_places_best:
  assumes "google_api_key A \<noteq> []"
    and "(if city \<noteq> [] then geocode_city A city (google_api_key A) else Inr None) = Inr center"
  shows "search_venue_in_places A U venue_name city cuisine =
           Inr (case highest_first (score_details U venue_name city (str_lower U (strip cuisine)))
                       (resolved_records A venue_name city center) of
                  Some det \<Rightarrow>
                    if - 1 < score_details U venue_name city (str_lower U (strip cuisine)) det
                    then Some det else None
                | None \<Rightarrow> None) \<and>
         (\<forall>ckey det. score_details U venue_name city ckey det =
            int (card (set (split_ws (str_lower U venue_name)) \<inter>
                       set (split_ws (str_lower U (or_empty (name det)))))) +
            (if in_city U (or_empty (formatted_address det)) city then 2 else 0) +
            (if ckey = [] then 0 else if matches_cuisine U det ckey then 3 else - 2))"
  using search_venue_in_places_select[OF assms] by (simp add: score_details_eq)

text \<open>
  Scenario D of the specification: the candidate Le Jardin in Paris with French
  requested. The restaurant scores 2 + 2 - 2 = 2, the bistro 0 + 0 + 3 = 3 and is
  returned.
\<close>

theorem search_venue_in_places_best_witness:
  "score_details ascii_str (lit ''Le Jardin'') (lit ''Paris'') (lit ''french'') rec_jardin = 2 \<and>
   score_details ascii_str (lit ''Le Jardin'') (lit ''Paris'') (lit ''french'') rec_bistro = 3 \<and>
   search_venue_in_places demo_agent ascii_str (lit ''Le Jardin'') (lit ''Paris'') (lit ''French'')
     = Inr (Some rec_bistro)"
proof -
  have k: "google_api_key demo_agent \<noteq> []" by (simp add: demo_agent_def lit_def)
  have g: "(if lit ''Paris'' \<noteq> [] then geocode_city demo_agent (lit ''Paris'') (google_api_key demo_agent)
            else Inr None) = Inr None"
    by (simp add: demo_agent_def)
  have hf: "highest_first (score_details ascii_str (lit ''Le Jardin'') (lit ''Paris'') (lit ''french''))
     [rec_jardin, rec_bistro, rec_jardin, rec_bistro, rec_jardin, rec_bistro, rec_jardin, rec_bistro]
     = Some rec_bistro"
    by (simp add: highest_first_def score_jardin_french score_bistro_french)
  show ?thesis
    using search_venue_in_places_best[OF k g, of ascii_str "lit ''Le Jardin''" "lit ''French''", THEN conjunct1]
    by (simp add: ckey_french demo_records_jardin hf score_jardin_french score_bistro_french)
qed

text \<open>
  C1 as stated fails where every record scores below zero: for the candidate Zorba in
  Rome with Thai requested both records score \<open>-2\<close>, the first of them is the record
  with the highest score, and the resolver returns nothing.
\<close>

theorem search_venue_in_places_sentinel:
  "highest_first (score_details ascii_str (lit ''Zorba'') (lit ''Rome'') (str_lower ascii_str (strip (lit ''Thai''))))
      (resolved_records demo_agent (lit ''Zorba'') (lit ''Rome'') None) = Some rec_jardin \<and>
   score_details ascii_str (lit ''Zorba'') (lit ''Rome'') (str_lower ascii_str (strip (lit ''Thai''))) rec_jardin = - 2 \<and>
   search_venue_in_places demo_agent ascii_str (lit ''Zorba'') (lit ''Rome'') (lit ''Thai'') = Inr None"
proof -
  have k: "google_api_key demo_agent \<noteq> []" by (simp add: demo_agent_def lit_def)
  have g: "(if lit ''Rome'' \<noteq> [] then geocode_city demo_agent (lit ''Rome'') (google_api_key demo_agent)
            else Inr None) = Inr None"
    by (simp add: demo_agent_def)
  have hf: "highest_first (score_details ascii_str (lit ''Zorba'') (lit ''Rome'') (lit ''thai''))
     [rec_jardin, rec_bistro, rec_jardin, rec_bistro, rec_jardin, rec_bistro, rec_jardin, rec_bistro]
     = Some rec_jardin"
    by (simp add: highest_first_def score_jardin_thai score_bistro_thai)
  show ?thesis
    using search_venue_in_places_select[OF k g, of ascii_str "lit ''Zorba''" "lit ''Thai''"]
    by (simp add: ckey_thai demo_records_zorba hf score_jardin_thai)
qed

section \<open>Properties of the fallback strategy\<close>

lemma collect_results_outdoor:
  "collect_results A U city c1 True results seeds = collect_results A U city c2 True results seeds"
proof (induction seeds arbitrary: results)
  case Nil
  show ?case by simp
next
  case (Cons s seeds)
  show ?case
    by (simp add: Cons.IH split: option.splits sum.splits)
qed

lemma demo_search: "places_text_search demo_agent q k c r m = Inr [seed_a, seed_b]"
  by (simp add: demo_agent_def)

lemma demo_collect_seeds:
  "collect_seeds demo_agent None 20000 [] (fallback_queries ascii_str (lit ''Paris'') (lit ''outdoor'') c True)
     = [seed_a, seed_b, seed_a, seed_b, seed_a, seed_b, seed_a, seed_b, seed_a, seed_b, seed_a, seed_b]"
  by (simp add: fallback_queries_def outdoor_terms_def demo_search)

lemma in_paris_jardin: "in_city ascii_str (or_empty (formatted_address rec_jardin)) (lit ''Paris'')"
  by (simp add: in_city_def rec_jardin_def or_empty_def ascii_eval)

lemma in_paris_bistro: "\<not> in_city ascii_str (or_empty (formatted_address rec_bistro)) (lit ''Paris'')"
  by (simp add: in_city_def rec_bistro_def or_empty_def ascii_eval)

lemma demo_fallback_outdoor:
  "get_fallback_venues demo_agent ascii_str (lit ''Paris'') (lit ''outdoor'') [] c True
     = Inr [rec_jardin, rec_jardin, rec_jardin]"
proof -
  have d: "get_place_details demo_agent (lit ''a'') (google_api_key demo_agent) = Inr (Some rec_jardin)"
    "get_place_details demo_agent (lit ''b'') (google_api_key demo_agent) = Inr (Some rec_bistro)"
    by (simp_all add: demo_agent_def lit_def)
  have k: "google_api_key demo_agent \<noteq> []" "geocode_city demo_agent (lit ''Paris'') (google_api_key demo_agent) = Inr None"
    "lit ''Paris'' \<noteq> []" "lit ''a'' \<noteq> []" "lit ''b'' \<noteq> []"
    by (simp_all add: demo_agent_def lit_def)
  have s: "seed_place_id seed_a = Some (lit ''a'')" "seed_place_id seed_b = Some (lit ''b'')"
    by (simp_all add: seed_a_def seed_b_def)
  show ?thesis
    by (simp add: get_fallback_venues_def demo_collect_seeds k d s in_paris_jardin in_paris_bistro)
qed

lemma collect_results_empty_city:
  "(\<forall>vs. collect_results A U [] cuisine io results seeds = Inr vs \<longrightarrow> vs = results) \<and>
   ((\<forall>pid e. get_place_details A pid (google_api_key A) \<noteq> Inl e) \<longrightarrow>
      collect_results A U [] cuisine io results seeds = Inr results)"
proof (induction seeds)
  case Nil
  show ?case by simp
next
  case (Cons s seeds)
  then show ?case
    by (auto simp: in_city_def split: option.splits sum.splits)
qed

text \<open>
  C3. With the outdoor flag set, the fallback strategy returns the same records (or
  raises the same exception) for any two cuisine categories: the outdoor queries carry
  no cuisine term and the cuisine filter is skipped.
\<close>

theorem fallback_outdoor_ignores_cuisine:
  "get_fallback_venues A U city venue_type audience c1 True =
   get_fallback_venues A U city venue_type audience c2 True"
proof -
  have q: "fallback_queries U city venue_type c1 True = fallback_queries U city venue_type c2 True"
    by (simp add: fallback_queries_def)
  show ?thesis
  proof -
    have "collect_results A U city c1 True = collect_results A U city c2 True"
      by (intro ext) (rule collect_results_outdoor)
    then show ?thesis
      unfolding get_fallback_venues_def q by (simp only:)
  qed
qed

text \<open>Outdoor venues in Paris, asked for with Italian and with Thai.\<close>

theorem fallback_outdoor_ignores_cuisine_witness:
  "get_fallback_venues demo_agent ascii_str (lit ''Paris'') (lit ''outdoor'') [] (lit ''Italian'') True
     = Inr [rec_jardin, rec_jardin, rec_jardin] \<and>
   get_fallback_venues demo_agent ascii_str (lit ''Paris'') (lit ''outdoor'') [] (lit ''Thai'') True
     = Inr [rec_jardin, rec_jardin, rec_jardin]"
  using fallback_outdoor_ignores_cuisine[of demo_agent ascii_str "lit ''Paris''" "lit ''outdoor''" "[]"
      "lit ''Italian''" "lit ''Thai''"]
    demo_fallback_outdoor[of "lit ''Italian''"]
  by simp

text \<open>
  C10. For the empty city the city test is false for every address. So the fallback
  strategy never returns a record for the empty city: whatever it returns is the empty
  list, and it does return whenever no details lookup raises (that call stands outside
  any \<^verbatim>\<open>try\<close>). And the resolver's score for the empty city is the word overlap
  with the cuisine adjustment only, without the 2 of the city.
\<close>

theorem empty_city_never_matches:
  "\<not> in_city U addr [] \<and>
   (\<forall>vs. get_fallback_venues A U [] venue_type audience cuisine is_outdoor = Inr vs \<longrightarrow> vs = []) \<and>
   ((\<forall>pid e. get_place_details A pid (google_api_key A) \<noteq> Inl e) \<longrightarrow>
      get_fallback_venues A U [] venue_type audience cuisine is_outdoor = Inr []) \<and>
   score_details U venue_name [] ckey det =
     int (card (set (split_ws (str_lower U venue_name)) \<inter>
                set (split_ws (str_lower U (or_empty (name det)))))) +
     (if ckey = [] then 0 else if matches_cuisine U det ckey then 3 else - 2)"
proof -
  have a: "\<not> in_city U addr []" for addr by (simp add: in_city_def)
  have b: "\<forall>vs. get_fallback_venues A U [] venue_type audience cuisine is_outdoor = Inr vs \<longrightarrow> vs = []"
    using collect_results_empty_city[of A U cuisine is_outdoor "[]"]
    by (simp add: get_fallback_venues_def Let_def)
  have c: "(\<forall>pid e. get_place_details A pid (google_api_key A) \<noteq> Inl e) \<longrightarrow>
      get_fallback_venues A U [] venue_type audience cuisine is_outdoor = Inr []"
    using collect_results_empty_city[of A U cuisine is_outdoor "[]"]
    by (simp add: get_fallback_venues_def Let_def)
  have d: "score_details U venue_name [] ckey det =
     int (card (set (split_ws (str_lower U venue_name)) \<inter>
                set (split_ws (str_lower U (or_empty (name det)))))) +
     (if ckey = [] then 0 else if matches_cuisine U det ckey then 3 else - 2)"
    by (simp add: score_details_def Let_def a)
  show ?thesis using a b c d by blast
qed

text \<open>The demo world asked for the empty city.\<close>

theorem empty_city_never_matches_witness:
  "get_fallback_venues demo_agent ascii_str [] (lit ''indoor'') [] (lit ''French'') False = Inr [] \<and>
   score_details ascii_str (lit ''Le Jardin'') [] (lit ''french'') rec_bistro = 3 \<and>
   \<not> in_city ascii_str (lit ''1 Rue X, Paris'') []"
proof -
  have nr: "\<forall>pid e. get_place_details demo_agent pid (google_api_key demo_agent) \<noteq> Inl e"
    by (simp add: demo_agent_def)
  have m: "matches_cuisine ascii_str rec_bistro (lit ''french'')"
    by (simp add: matches_cuisine_def CUISINE_KEYS_def rec_bistro_def or_empty_def Let_def ascii_eval)
  have w: "set (split_ws (str_lower ascii_str (lit ''Le Jardin''))) \<inter>
           set (split_ws (str_lower ascii_str (or_empty (name rec_bistro)))) = {}"
    by (simp add: split_ws_def rec_bistro_def or_empty_def ascii_eval)
  have l: "lit ''french'' \<noteq> []" by (simp add: lit_def)
  show ?thesis
    using empty_city_never_matches[of ascii_str "lit ''1 Rue X, Paris''" demo_agent "lit ''indoor''" "[]"
        "lit ''French''" False "lit ''Le Jardin''" "lit ''french''" rec_bistro] nr m w l
    by simp
qed

section \<open>Properties of the orchestrator\<close>

lemma final_guard_after_fallback:
  assumes "fallback_stage A U city vt aud (if io then [] else c) io e0 = Inr e"
  shows "final_guard A U city vt aud c io e = Inr e"
proof (cases "e = [] \<and> io \<and> c \<noteq> []")
  case False
  then show ?thesis by (auto simp: final_guard_def)
next
  case True
  then have "e0 = []" using assms by (auto simp: fallback_stage_def split: if_splits)
  then have "get_fallback_venues A U city vt aud [] True = Inr []"
    using assms True by (auto simp: fallback_stage_def split: sum.splits)
  then show ?thesis using True by (simp add: final_guard_def)
qed

lemma final_guard_retry_same:
  assumes "fallback_stage A U city vt aud (if io then [] else c) io e0 = Inr e"
    and "e = [] \<and> io \<and> c \<noteq> []"
  shows "e0 = [] \<and>
         get_fallback_venues A U city vt aud (if io then [] else c) io = get_fallback_venues A U city vt aud [] True \<and>
         get_fallback_venues A U city vt aud [] True = Inr []"
proof -
  have e0: "e0 = []" using assms by (auto simp: fallback_stage_def split: if_splits)
  then have "get_fallback_venues A U city vt aud [] True = Inr []"
    using assms by (auto simp: fallback_stage_def split: sum.splits)
  then show ?thesis using e0 assms(2) by simp
qed

lemma process_request_weather_raises:
  "get_weather_line A ctx = Inl e \<Longrightarrow>
   process_request A U ctx = Inl e \<and> process_request_without_final_guard A U ctx = Inl e"
  by (simp add: process_request_def process_request_without_final_guard_def Let_def)

lemma request_names_weather:
  assumes "get_weather_line A ctx = Inr w"
  shows "request_names A U ctx =
     (case call_llm_unified A
             (build_search_prompt A (ctx_city ctx) (request_venue_type ctx) (ctx_audience ctx)
                (ctx_guest_count ctx) (ctx_budget_venue ctx) (effective_cuisine U ctx)
                w (request_outdoor U ctx)) of
        None \<Rightarrow> []
      | Some t \<Rightarrow> if t = [] then [] else extract_venue_names_from_text U (Some t))"
  by (simp add: request_names_def request_weather_def assms)

lemma process_request_stages:
  assumes "get_weather_line A ctx = Inr w"
  shows "process_request A U ctx =
     (case resolve_names A U (ctx_city ctx) (effective_cuisine U ctx) (request_outdoor U ctx)
             (ctx_cuisine ctx) [] (request_names A U ctx) of
        Inl e \<Rightarrow> Inl e
      | Inr enriched \<Rightarrow>
          (case fallback_stage A U (ctx_city ctx) (request_venue_type ctx) (ctx_audience ctx)
                  (effective_cuisine U ctx) (request_outdoor U ctx) enriched of
             Inl e \<Rightarrow> Inl e
           | Inr found \<Rightarrow>
               Inr \<lparr> suggestions = found,
                     raw = (case call_llm_unified A
                                   (build_search_prompt A (ctx_city ctx) (request_venue_type ctx)
                                      (ctx_audience ctx) (ctx_guest_count ctx) (ctx_budget_venue ctx)
                                      (effective_cuisine U ctx) w (request_outdoor U ctx)) of
                              None \<Rightarrow> lit ''No LLM response available''
                            | Some t \<Rightarrow> if t = [] then lit ''No LLM response available'' else t),
                     unified_display = format_weather_and_venues A w found (ctx_city ctx),
                     weather_info = w \<rparr>))"
proof -
  have g: "final_guard A U (ctx_city ctx) (request_venue_type ctx) (ctx_audience ctx) (ctx_cuisine ctx)
             (request_outdoor U ctx) found = Inr found"
    if "fallback_stage A U (ctx_city ctx) (request_venue_type ctx) (ctx_audience ctx)
          (effective_cuisine U ctx) (request_outdoor U ctx) enriched = Inr found" for enriched found
    using that final_guard_after_fallback[of A U "ctx_city ctx" "request_venue_type ctx" "ctx_audience ctx"
        "request_outdoor U ctx" "ctx_cuisine ctx" enriched found]
    by (simp add: effective_cuisine_def)
  show ?thesis
    unfolding process_request_def Let_def assms sum.case
    unfolding request_venue_type_def[symmetric] request_outdoor_def[symmetric]
      effective_cuisine_def[symmetric]
    unfolding request_names_weather[OF assms, symmetric]
    by (auto split: sum.splits simp: g)
qed

lemma process_request_without_final_guard_stages:
  assumes "get_weather_line A ctx = Inr w"
  shows "process_request_without_final_guard A U ctx =
     (case resolve_names A U (ctx_city ctx) (effective_cuisine U ctx) (request_outdoor U ctx)
             (ctx_cuisine ctx) [] (request_names A U ctx) of
        Inl e \<Rightarrow> Inl e
      | Inr enriched \<Rightarrow>
          (case fallback_stage A U (ctx_city ctx) (request_venue_type ctx) (ctx_audience ctx)
                  (effective_cuisine U ctx) (request_outdoor U ctx) enriched of
             Inl e \<Rightarrow> Inl e
           | Inr found \<Rightarrow>
               Inr \<lparr> suggestions = found,
                     raw = (case call_llm_unified A
                                   (build_search_prompt A (ctx_city ctx) (request_venue_type ctx)
                                      (ctx_audience ctx) (ctx_guest_count ctx) (ctx_budget_venue ctx)
                                      (effective_cuisine U ctx) w (request_outdoor U ctx)) of
                              None \<Rightarrow> lit ''No LLM response available''
                            | Some t \<Rightarrow> if t = [] then lit ''No LLM response available'' else t),
                     unified_display = format_weather_and_venues A w found (ctx_city ctx),
                     weather_info = w \<rparr>))"
  unfolding process_request_without_final_guard_def Let_def assms sum.case
  unfolding request_venue_type_def[symmetric] request_outdoor_def[symmetric]
    effective_cuisine_def[symmetric]
  unfolding request_names_weather[OF assms, symmetric]
  by (rule refl)

lemma process_request_guard_free:
  "process_request A U ctx = process_request_without_final_guard A U ctx"
proof (cases "get_weather_line A ctx")
  case (Inl e)
  then show ?thesis using process_request_weather_raises[of A ctx e U] by simp
next
  case (Inr w)
  show ?thesis
    by (simp only: process_request_stages[OF Inr] process_request_without_final_guard_stages[OF Inr])
qed

lemma resolve_names_Inr:
  "resolve_names A U city ce io c enriched names = Inr out \<Longrightarrow>
   out = enriched @ map mark_found
           (filter (\<lambda>det. io \<or> c = [] \<or> matches_cuisine U det c)
              (List.map_filter (\<lambda>n. resolved_option (search_venue_in_places A U n city ce)) names))"
proof (induction names arbitrary: enriched)
  case Nil
  then show ?case by (simp add: List.map_filter_simps)
next
  case (Cons n names)
  show ?case
  proof (cases "search_venue_in_places A U n city ce")
    case (Inl e)
    then show ?thesis using Cons.prems by simp
  next
    case (Inr d)
    show ?thesis
    proof (cases d)
      case None
      then show ?thesis using Cons.prems Inr Cons.IH[of enriched]
        by (simp add: List.map_filter_simps resolved_option_def)
    next
      case (Some det)
      show ?thesis
      proof (cases "io \<or> c = [] \<or> matches_cuisine U det c")
        case True
        then have "resolve_names A U city ce io c (enriched @ [mark_found det]) names = Inr out"
          using Cons.prems Inr Some by auto
        from Cons.IH[OF this] show ?thesis
          using True Inr Some by (simp add: List.map_filter_simps resolved_option_def)
      next
        case False
        then have "resolve_names A U city ce io c enriched names = Inr out"
          using Cons.prems Inr Some by auto
        from Cons.IH[OF this] show ?thesis
          using False Inr Some by (simp add: List.map_filter_simps resolved_option_def)
      qed
    qed
  qed
qed

lemma resolve_names_returns:
  assumes "\<forall>n. \<exists>d. search_venue_in_places A U n city ce = Inr d"
  shows "\<exists>out. resolve_names A U city ce io c enriched names = Inr out"
proof (induction names arbitrary: enriched)
  case Nil
  show ?case by simp
next
  case (Cons n names)
  obtain d where d: "search_venue_in_places A U n city ce = Inr d" using assms by blast
  show ?case using d Cons.IH by (cases d) auto
qed

lemma search_venue_in_places_returns:
  assumes "\<forall>c k e. geocode_city A c k \<noteq> Inl e"
  shows "\<exists>d. search_venue_in_places A U n city cuisine = Inr d"
proof (cases "google_api_key A = []")
  case True
  then show ?thesis by (simp add: search_venue_in_places_def)
next
  case False
  show ?thesis
  proof (cases "city = []")
    case True
    then show ?thesis using False by (simp add: search_venue_in_places_def Let_def)
  next
    case c: False
    obtain center where "geocode_city A city (google_api_key A) = Inr center"
      using assms by (cases "geocode_city A city (google_api_key A)") auto
    then show ?thesis using False c by (simp add: search_venue_in_places_def Let_def)
  qed
qed

lemma collect_results_length:
  "collect_results A U city cuisine io results seeds = Inr vs \<Longrightarrow> length results \<le> 3 \<Longrightarrow> length vs \<le> 3"
proof (induction seeds arbitrary: results)
  case Nil
  then show ?case by simp
next
  case (Cons s seeds)
  show ?case
  proof (cases "3 \<le> length results")
    case True
    then show ?thesis using Cons.prems by simp
  next
    case False
    then have l: "length (results @ [d]) \<le> 3" for d by simp
    show ?thesis
      using Cons.prems False Cons.IH[of results] Cons.IH[OF _ l]
      by (auto split: option.splits sum.splits if_splits)
  qed
qed

lemma collect_results_returns:
  assumes "\<forall>p k e. get_place_details A p k \<noteq> Inl e"
  shows "\<exists>vs. collect_results A U city cuisine io results seeds = Inr vs"
proof (induction seeds arbitrary: results)
  case Nil
  show ?case by simp
next
  case (Cons s seeds)
  show ?case
  proof (cases "seed_place_id s")
    case None
    then show ?thesis using Cons.IH by simp
  next
    case (Some pid)
    obtain d where d: "get_place_details A pid (google_api_key A) = Inr d"
      using assms by (cases "get_place_details A pid (google_api_key A)") auto
    show ?thesis using Some d Cons.IH by (cases d) auto
  qed
qed

lemma get_fallback_venues_length:
  "get_fallback_venues A U city vt aud cuisine io = Inr vs \<Longrightarrow> length vs \<le> 3"
  using collect_results_length[of A U city cuisine io "[]" _ vs]
  by (auto simp: get_fallback_venues_def Let_def split: if_splits sum.splits)

lemma get_fallback_venues_returns:
  assumes "\<forall>c k e. geocode_city A c k \<noteq> Inl e" "\<forall>p k e. get_place_details A p k \<noteq> Inl e"
  shows "\<exists>vs. get_fallback_venues A U city vt aud cuisine io = Inr vs"
proof (cases "google_api_key A = []")
  case True
  then show ?thesis by (simp add: get_fallback_venues_def)
next
  case False
  have "\<exists>center. (if city \<noteq> [] then geocode_city A city (google_api_key A) else Inr None) = Inr center"
    using assms(1) by (cases "geocode_city A city (google_api_key A)") auto
  then obtain center where
    c: "(if city \<noteq> [] then geocode_city A city (google_api_key A) else Inr None) = Inr center"
    by blast
  show ?thesis
    using False collect_results_returns[OF assms(2)]
    unfolding get_fallback_venues_def Let_def c by simp
qed

lemma length_extract_le: "length (extract_venue_names_from_text U text) \<le> 3"
  by (simp add: extract_venue_names_from_text_def split: option.splits)

lemma length_request_names: "length (request_names A U ctx) \<le> 3"
  by (simp add: request_names_def length_extract_le split: option.splits)

lemma length_map_filter_le: "length (List.map_filter f xs) \<le> length xs"
  by (induction xs) (auto simp: List.map_filter_simps split: option.splits)

lemma length_accepted_records: "length (accepted_records A U ctx) \<le> 3"
proof -
  have "length (accepted_records A U ctx) \<le> length (request_names A U ctx)"
    unfolding accepted_records_def
    by (rule order_trans[OF length_filter_le length_map_filter_le])
  then show ?thesis using length_request_names[of A U ctx] by linarith
qed

lemma resolve_stage_eq:
  "resolve_names A U (ctx_city ctx) (effective_cuisine U ctx) (request_outdoor U ctx)
      (ctx_cuisine ctx) [] (request_names A U ctx) = Inr out \<Longrightarrow>
   out = map mark_found (accepted_records A U ctx)"
  using resolve_names_Inr[of A U "ctx_city ctx" "effective_cuisine U ctx" "request_outdoor U ctx"
      "ctx_cuisine ctx" "[]" "request_names A U ctx" out]
  by (simp add: accepted_records_def)

lemma process_request_suggestions:
  assumes "process_request A U ctx = Inr r"
  shows "(accepted_records A U ctx \<noteq> [] \<longrightarrow> suggestions r = map mark_found (accepted_records A U ctx)) \<and>
         (accepted_records A U ctx = [] \<longrightarrow>
            (\<exists>found. get_fallback_venues A U (ctx_city ctx) (request_venue_type ctx) (ctx_audience ctx)
                        (effective_cuisine U ctx) (request_outdoor U ctx) = Inr found \<and>
                     suggestions r = map mark_fallback found))"
proof -
  obtain w where w: "get_weather_line A ctx = Inr w"
    using assms process_request_weather_raises[of A ctx _ U]
    by (cases "get_weather_line A ctx") auto
  from assms obtain out found where
    o: "resolve_names A U (ctx_city ctx) (effective_cuisine U ctx) (request_outdoor U ctx)
          (ctx_cuisine ctx) [] (request_names A U ctx) = Inr out" and
    f: "fallback_stage A U (ctx_city ctx) (request_venue_type ctx) (ctx_audience ctx)
          (effective_cuisine U ctx) (request_outdoor U ctx) out = Inr found" and
    s: "suggestions r = found"
    by (auto simp: process_request_stages[OF w] split: sum.splits)
  have out: "out = map mark_found (accepted_records A U ctx)" by (rule resolve_stage_eq[OF o])
  show ?thesis
    using f s out by (auto simp: fallback_stage_def split: sum.splits if_splits)
qed

lemmas extract_eval =
  extract_venue_names_from_text_def span_names_def bullet_names_def bullet_name_def clean_name_def
  findall_bold.simps sub_parens.simps bold_at_def skip_sep_def paren_at_def splitlines_def
  is_linebreak_def

lemma demo_extract:
  "extract_venue_names_from_text ascii_str (Some (lit ''**Le Jardin**: a garden room'')) = [lit ''Le Jardin'']"
  by (simp add: extract_eval ascii_eval)

lemma demo_search_jardin:
  "search_venue_in_places demo_agent ascii_str (lit ''Le Jardin'') (lit ''Paris'') (lit ''French'')
     = Inr (Some rec_bistro)"
proof -
  have k: "google_api_key demo_agent \<noteq> []" by (simp add: demo_agent_def lit_def)
  have g: "(if lit ''Paris'' \<noteq> [] then geocode_city demo_agent (lit ''Paris'') (google_api_key demo_agent)
            else Inr None) = Inr None"
    by (simp add: demo_agent_def)
  have hf: "highest_first (score_details ascii_str (lit ''Le Jardin'') (lit ''Paris'') (lit ''french''))
     [rec_jardin, rec_bistro, rec_jardin, rec_bistro, rec_jardin, rec_bistro, rec_jardin, rec_bistro]
     = Some rec_bistro"
    by (simp add: highest_first_def score_jardin_french score_bistro_french)
  show ?thesis
    using search_venue_in_places_select[OF k g, of ascii_str "lit ''Le Jardin''" "lit ''French''"]
    by (simp add: ckey_french demo_records_jardin hf score_bistro_french)
qed

lemma demo_request_values:
  "request_venue_type demo_request = lit ''Indoor''"
  "\<not> request_outdoor ascii_str demo_request"
  "effective_cuisine ascii_str demo_request = lit ''French''"
  "request_names demo_agent ascii_str demo_request = [lit ''Le Jardin'']"
proof -
  show v: "request_venue_type demo_request = lit ''Indoor''"
    by (simp add: request_venue_type_def demo_request_def lit_def)
  show o: "\<not> request_outdoor ascii_str demo_request"
    unfolding request_outdoor_def v by (simp add: is_outdoor_type_def ascii_eval)
  show "effective_cuisine ascii_str demo_request = lit ''French''"
    using o by (simp add: effective_cuisine_def demo_request_def)
  have "call_llm_unified demo_agent p = Some (lit ''**Le Jardin**: a garden room'')" for p
    by (simp add: demo_agent_def)
  moreover have "lit ''**Le Jardin**: a garden room'' \<noteq> []" by (simp add: lit_def)
  ultimately show "request_names demo_agent ascii_str demo_request = [lit ''Le Jardin'']"
    by (simp add: request_names_def demo_extract)
qed

lemma bistro_french: "matches_cuisine ascii_str rec_bistro (lit ''French'')"
  by (simp add: matches_cuisine_def CUISINE_KEYS_def rec_bistro_def or_empty_def Let_def ascii_eval)

lemma demo_accepted: "accepted_records demo_agent ascii_str demo_request = [rec_bistro]"
proof -
  have c: "ctx_city demo_request = lit ''Paris''" "ctx_cuisine demo_request = lit ''French''"
    by (simp_all add: demo_request_def)
  show ?thesis
    unfolding accepted_records_def demo_request_values c
    by (simp add: List.map_filter_simps demo_search_jardin resolved_option_def bistro_french)
qed

lemma demo_no_raise:
  "\<forall>c k e. geocode_city demo_agent c k \<noteq> Inl e" "\<forall>p k e. get_place_details demo_agent p k \<noteq> Inl e"
  by (simp_all add: demo_agent_def)

lemma process_request_returns:
  assumes "get_weather_line A ctx = Inr w"
    and "\<forall>c k e. geocode_city A c k \<noteq> Inl e" "\<forall>p k e. get_place_details A p k \<noteq> Inl e"
  shows "\<exists>r. process_request A U ctx = Inr r"
proof -
  have "\<forall>n. \<exists>d. search_venue_in_places A U n (ctx_city ctx) (effective_cuisine U ctx) = Inr d"
    using search_venue_in_places_returns[OF assms(2)] by blast
  from resolve_names_returns[OF this] obtain out where
    o: "resolve_names A U (ctx_city ctx) (effective_cuisine U ctx) (request_outdoor U ctx)
          (ctx_cuisine ctx) [] (request_names A U ctx) = Inr out" by blast
  obtain vs where v: "get_fallback_venues A U (ctx_city ctx) (request_venue_type ctx) (ctx_audience ctx)
      (effective_cuisine U ctx) (request_outdoor U ctx) = Inr vs"
    using get_fallback_venues_returns[OF assms(2,3)] by blast
  show ?thesis
    by (simp add: process_request_stages[OF assms(1)] o fallback_stage_def v)
qed

lemma demo_weather: "get_weather_line demo_agent demo_request = Inr (Some (lit ''Sunny''))"
  by (simp add: get_weather_line_def demo_request_def ascii_eval)

lemma mark_status:
  "match_status (mark_found d) = Some (lit ''found'')"
  "match_status (mark_fallback d) = Some (lit ''found'')"
  by (simp_all add: mark_found_def mark_fallback_def)

lemma accepted_records_resolved:
  assumes "det \<in> set (accepted_records A U ctx)"
  shows "\<exists>n. search_venue_in_places A U n (ctx_city ctx) (effective_cuisine U ctx) = Inr (Some det)"
proof -
  from assms obtain n where
    "resolved_option (search_venue_in_places A U n (ctx_city ctx) (effective_cuisine U ctx)) = Some det"
    by (auto simp: accepted_records_def List.map_filter_def)
  then show ?thesis by (auto simp: resolved_option_def split: sum.splits)
qed

lemma format_no_venues:
  "format_weather_and_venues A w [] city =
     (if or_empty w = [] then no_venues_notice
      else [128197] @ lit '' **Weather:** '' @ or_empty w @ [10, 10] @ no_venues_notice)"
  by (simp add: format_weather_and_venues_def)

lemma resolve_names_keyless:
  "google_api_key A = [] \<Longrightarrow> resolve_names A U city ce io c enriched names = Inr enriched"
  by (induction names) (simp_all add: search_venue_in_places_def)

lemma demo_fallback_izmir:
  "get_fallback_venues demo_agent ascii_str (lit ''Izmir'') (lit ''Outdoor'') [] [] True = Inr []"
proof -
  have d: "get_place_details demo_agent (lit ''a'') (google_api_key demo_agent) = Inr (Some rec_jardin)"
    "get_place_details demo_agent (lit ''b'') (google_api_key demo_agent) = Inr (Some rec_bistro)"
    by (simp_all add: demo_agent_def lit_def)
  have k: "google_api_key demo_agent \<noteq> []" "geocode_city demo_agent (lit ''Izmir'') (google_api_key demo_agent) = Inr None"
    "lit ''Izmir'' \<noteq> []" "lit ''a'' \<noteq> []" "lit ''b'' \<noteq> []"
    by (simp_all add: demo_agent_def lit_def)
  have s: "seed_place_id seed_a = Some (lit ''a'')" "seed_place_id seed_b = Some (lit ''b'')"
    by (simp_all add: seed_a_def seed_b_def)
  have c: "\<not> in_city ascii_str (or_empty (formatted_address rec_jardin)) (lit ''Izmir'')"
    "\<not> in_city ascii_str (or_empty (formatted_address rec_bistro)) (lit ''Izmir'')"
    by (simp_all add: in_city_def rec_jardin_def rec_bistro_def or_empty_def ascii_eval)
  have q: "collect_seeds demo_agent None 20000 [] (fallback_queries ascii_str (lit ''Izmir'') (lit ''Outdoor'') [] True)
     = [seed_a, seed_b, seed_a, seed_b, seed_a, seed_b, seed_a, seed_b, seed_a, seed_b, seed_a, seed_b]"
    by (simp add: fallback_queries_def outdoor_terms_def demo_search)
  show ?thesis
    by (simp add: get_fallback_venues_def q k d s c)
qed

text \<open>
  C2, as the code has it. The outdoor flag holds exactly when the venue type, with the
  white space around it stripped, lowers to \<open>outdoor\<close>. The effective cuisine, which
  is the one handed to the resolver and to the fallback strategy, is empty for an
  outdoor request and the requested cuisine otherwise. A request that returns suggests
  exactly the accepted records when there are any, where a record is accepted if and
  only if the resolver returned it and the request is outdoor, or asks for no cuisine,
  or the cuisine matcher accepts the record against the requested cuisine; when no
  record is accepted it suggests what the fallback strategy returns for the effective
  cuisine.
\<close>

theorem process_request_cuisine_rules:
  assumes "process_request A U ctx = Inr r"
  shows "(request_outdoor U ctx \<longleftrightarrow> str_lower U (strip (request_venue_type ctx)) = lit ''outdoor'') \<and>
         effective_cuisine U ctx = (if request_outdoor U ctx then [] else ctx_cuisine ctx) \<and>
         (accepted_records A U ctx \<noteq> [] \<longrightarrow>
            suggestions r = map mark_found (accepted_records A U ctx)) \<and>
         (accepted_records A U ctx = [] \<longrightarrow>
            (\<exists>found. get_fallback_venues A U (ctx_city ctx) (request_venue_type ctx) (ctx_audience ctx)
                        (effective_cuisine U ctx) (request_outdoor U ctx) = Inr found \<and>
                     suggestions r = map mark_fallback found))"
  using process_request_suggestions[OF assms]
  by (simp add: request_outdoor_def is_outdoor_type_def effective_cuisine_def)

text \<open>The French indoor request in Paris: the bistro is resolved and accepted.\<close>

theorem process_request_cuisine_rules_witness:
  "\<exists>r. process_request demo_agent ascii_str demo_request = Inr r \<and>
       accepted_records demo_agent ascii_str demo_request = [rec_bistro] \<and>
       suggestions r = [mark_found rec_bistro]"
proof -
  obtain r where r: "process_request demo_agent ascii_str demo_request = Inr r"
    using process_request_returns[OF demo_weather demo_no_raise] by blast
  show ?thesis
    using process_request_cuisine_rules[OF r] r by (simp add: demo_accepted)
qed

text \<open>
  C2 as stated fails for a venue type with white space around it: with a leading blank
  the string does not equal \<open>outdoor\<close> in any letter case, and the flag holds.
\<close>

theorem is_outdoor_type_strips:
  "is_outdoor_type ascii_str (lit '' outdoor'') \<and> str_lower ascii_str (lit '' outdoor'') \<noteq> lit ''outdoor''"
  by (simp add: is_outdoor_type_def ascii_eval)

text \<open>
  C5. A request that returns suggests at most 3 records, each with match status
  \<open>found\<close>, and each is a record the resolver returned for one of the names or a
  record of the list the fallback strategy returned, tagged; the fallback strategy
  returns at most 3 records; and a request does return whenever the weather line is
  obtained and the geocoder and the details lookup do not raise.
\<close>

theorem process_request_bounds:
  "(\<forall>r. process_request A U ctx = Inr r \<longrightarrow>
      length (suggestions r) \<le> 3 \<and>
      (\<forall>v \<in> set (suggestions r).
         match_status v = Some (lit ''found'') \<and>
         ((\<exists>n det. search_venue_in_places A U n (ctx_city ctx) (effective_cuisine U ctx) = Inr (Some det) \<and>
                    v = mark_found det) \<or>
          (\<exists>found det. get_fallback_venues A U (ctx_city ctx) (request_venue_type ctx) (ctx_audience ctx)
                          (effective_cuisine U ctx) (request_outdoor U ctx) = Inr found \<and>
                        det \<in> set found \<and> v = mark_fallback det)))) \<and>
   (\<forall>vs. get_fallback_venues A U city venue_type audience cuisine is_outdoor = Inr vs \<longrightarrow> length vs \<le> 3) \<and>
   ((\<exists>w. get_weather_line A ctx = Inr w) \<and>
    (\<forall>c k e. geocode_city A c k \<noteq> Inl e) \<and> (\<forall>p k e. get_place_details A p k \<noteq> Inl e) \<longrightarrow>
      (\<exists>r. process_request A U ctx = Inr r))"
proof -
  have a: "length (suggestions r) \<le> 3 \<and>
      (\<forall>v \<in> set (suggestions r).
         match_status v = Some (lit ''found'') \<and>
         ((\<exists>n det. search_venue_in_places A U n (ctx_city ctx) (effective_cuisine U ctx) = Inr (Some det) \<and>
                    v = mark_found det) \<or>
          (\<exists>found det. get_fallback_venues A U (ctx_city ctx) (request_venue_type ctx) (ctx_audience ctx)
                          (effective_cuisine U ctx) (request_outdoor U ctx) = Inr found \<and>
                        det \<in> set found \<and> v = mark_fallback det)))"
    if r: "process_request A U ctx = Inr r" for r
  proof (cases "accepted_records A U ctx = []")
    case False
    then have s: "suggestions r = map mark_found (accepted_records A U ctx)"
      using process_request_suggestions[OF r] by blast
    have "length (suggestions r) \<le> 3" unfolding s using length_accepted_records[of A U ctx] by simp
    moreover have "match_status v = Some (lit ''found'') \<and>
         (\<exists>n det. search_venue_in_places A U n (ctx_city ctx) (effective_cuisine U ctx) = Inr (Some det) \<and>
                    v = mark_found det)" if "v \<in> set (suggestions r)" for v
    proof -
      from that obtain det where d: "det \<in> set (accepted_records A U ctx)" "v = mark_found det"
        unfolding s by auto
      then show ?thesis using accepted_records_resolved[OF d(1)] by (auto simp: mark_status)
    qed
    ultimately show ?thesis by blast
  next
    case True
    then obtain found where f: "get_fallback_venues A U (ctx_city ctx) (request_venue_type ctx) (ctx_audience ctx)
                        (effective_cuisine U ctx) (request_outdoor U ctx) = Inr found"
      and s: "suggestions r = map mark_fallback found"
      using process_request_suggestions[OF r] by blast
    have "length (suggestions r) \<le> 3" unfolding s using get_fallback_venues_length[OF f] by simp
    moreover have "match_status v = Some (lit ''found'') \<and>
          (\<exists>found det. get_fallback_venues A U (ctx_city ctx) (request_venue_type ctx) (ctx_audience ctx)
                          (effective_cuisine U ctx) (request_outdoor U ctx) = Inr found \<and>
                        det \<in> set found \<and> v = mark_fallback det)" if "v \<in> set (suggestions r)" for v
    proof -
      from that obtain det where d: "det \<in> set found" "v = mark_fallback det"
        unfolding s by auto
      then show ?thesis using f by (auto simp: mark_status)
    qed
    ultimately show ?thesis by blast
  qed
  have b: "\<forall>vs. get_fallback_venues A U city venue_type audience cuisine is_outdoor = Inr vs \<longrightarrow> length vs \<le> 3"
    using get_fallback_venues_length by blast
  have c: "(\<exists>w. get_weather_line A ctx = Inr w) \<and>
      (\<forall>c k e. geocode_city A c k \<noteq> Inl e) \<and> (\<forall>p k e. get_place_details A p k \<noteq> Inl e) \<longrightarrow>
      (\<exists>r. process_request A U ctx = Inr r)"
    using process_request_returns by blast
  show ?thesis using a b c by blast
qed

text \<open>The French indoor request in Paris, and the outdoor fallback in Paris.\<close>

theorem process_request_bounds_witness:
  "\<exists>r. process_request demo_agent ascii_str demo_request = Inr r \<and>
       length (suggestions r) = 1 \<and>
       list_all (\<lambda>v. match_status v = Some (lit ''found'')) (suggestions r) \<and>
       get_fallback_venues demo_agent ascii_str (lit ''Paris'') (lit ''outdoor'') [] [] True
         = Inr [rec_jardin, rec_jardin, rec_jardin]"
proof -
  from process_request_bounds[of demo_agent ascii_str demo_request "lit ''Paris''" "lit ''outdoor''" "[]" "[]" True]
  obtain r where r: "process_request demo_agent ascii_str demo_request = Inr r"
    and m: "\<forall>v \<in> set (suggestions r). match_status v = Some (lit ''found'')"
    using demo_no_raise demo_weather by blast
  have "suggestions r = [mark_found rec_bistro]"
    using process_request_suggestions[OF r] by (simp add: demo_accepted)
  then show ?thesis using r m demo_fallback_outdoor[of "[]"] by (auto simp: list_all_iff)
qed

text \<open>
  What the constructor leaves as lookup key is never empty, and without the model key
  it raises.
\<close>

lemma first_nonempty_last: "or_empty x \<noteq> [] \<Longrightarrow> first_nonempty (xs @ [x]) \<noteq> []"
  by (induction xs) auto

lemma venue_agent_key_nonempty: "venue_agent_key E = Inr key \<Longrightarrow> key \<noteq> []"
proof -
  assume a: "venue_agent_key E = Inr key"
  then have k: "or_empty (env_GOOGLE_API_KEY E) \<noteq> []"
    by (auto simp: venue_agent_key_def base_agent_init_def split: if_splits)
  have "first_nonempty ([secret_maps E, env_GOOGLE_MAPS_API_KEY E] @ [env_GOOGLE_API_KEY E]) \<noteq> []"
    by (rule first_nonempty_last[OF k])
  then show ?thesis using a k by (auto simp: venue_agent_key_def base_agent_init_def)
qed

lemma venue_agent_key_raises:
  "or_empty (env_GOOGLE_API_KEY E) = [] \<Longrightarrow>
   venue_agent_key E = Inl (PyException ''RuntimeError'') \<and>
   venue_agent_request E A U ctx = Inl (PyException ''RuntimeError'')"
  by (simp add: venue_agent_key_def base_agent_init_def venue_agent_request_def)

text \<open>
  A date given as a text shorter than 10 characters reaches the forecast helper as a
  text: the weather line raises and so does the request, lookup key or not.
\<close>

lemma year_request_raises:
  "get_weather_line keyless_agent year_request = Inl (PyException ''AttributeError'') \<and>
   process_request keyless_agent ascii_str year_request = Inl (PyException ''AttributeError'')"
proof -
  have "get_weather_line keyless_agent year_request = Inl (PyException ''AttributeError'')"
    by (simp add: get_weather_line_def format_weather_line_text_def year_request_def demo_request_def
        keyless_agent_def demo_agent_def ascii_eval)
  then show ?thesis using process_request_weather_raises by blast
qed

text \<open>
  C4, as the code has it. With an empty lookup key the resolver returns nothing and the
  fallback strategy the empty list, whatever the other arguments and the collaborators
  are, and a request whose weather line is obtained completes with no suggestion and
  the notice that no venue was found, after the weather line when there is one. But no
  constructed agent has an empty lookup key: the key the constructor sets is never
  empty, and without the environment variable of the model key the constructor raises,
  so that no request is processed.
\<close>

theorem no_credentials_no_venues:
  "(google_api_key A = [] \<longrightarrow>
      search_venue_in_places A U venue_name city cuisine = Inr None \<and>
      get_fallback_venues A U city venue_type audience cuisine is_outdoor = Inr [] \<and>
      (\<forall>w. get_weather_line A ctx = Inr w \<longrightarrow>
         (\<exists>r. process_request A U ctx = Inr r \<and> suggestions r = [] \<and>
              unified_display r =
                (if or_empty w = [] then no_venues_notice
                 else [128197] @ lit '' **Weather:** '' @ or_empty w @ [10, 10] @ no_venues_notice)))) \<and>
   (\<forall>key. venue_agent_key E = Inr key \<longrightarrow> key \<noteq> []) \<and>
   (or_empty (env_GOOGLE_API_KEY E) = [] \<longrightarrow>
      venue_agent_key E = Inl (PyException ''RuntimeError'') \<and>
      venue_agent_request E A U ctx = Inl (PyException ''RuntimeError''))"
proof -
  have a: "search_venue_in_places A U venue_name city cuisine = Inr None \<and>
      get_fallback_venues A U city venue_type audience cuisine is_outdoor = Inr []"
    if "google_api_key A = []"
    using that by (simp add: search_venue_in_places_def get_fallback_venues_def)
  have b: "\<exists>r. process_request A U ctx = Inr r \<and> suggestions r = [] \<and>
              unified_display r =
                (if or_empty w = [] then no_venues_notice
                 else [128197] @ lit '' **Weather:** '' @ or_empty w @ [10, 10] @ no_venues_notice)"
    if "google_api_key A = []" "get_weather_line A ctx = Inr w" for w
    using that(1)
    by (simp add: process_request_stages[OF that(2)] resolve_names_keyless fallback_stage_def
        get_fallback_venues_def format_no_venues)
  show ?thesis
    using a b venue_agent_key_nonempty[of E] venue_agent_key_raises[of E A U ctx] by blast
qed

text \<open>
  The demo world with its lookup key removed, an environment with the model key only
  and one without any key.
\<close>

theorem no_credentials_no_venues_witness:
  "google_api_key keyless_agent = [] \<and>
   get_weather_line keyless_agent demo_request = Inr (Some (lit ''Sunny'')) \<and>
   search_venue_in_places keyless_agent ascii_str (lit ''Le Jardin'') (lit ''Paris'') (lit ''French'') = Inr None \<and>
   get_fallback_venues keyless_agent ascii_str (lit ''Paris'') (lit ''Indoor'') (lit ''Kids'') (lit ''French'') False = Inr [] \<and>
   (\<exists>r. process_request keyless_agent ascii_str demo_request = Inr r \<and> suggestions r = [] \<and>
        unified_display r = [128197] @ lit '' **Weather:** Sunny'' @ [10, 10] @ no_venues_notice) \<and>
   venue_agent_key model_key_only = Inr (lit ''g-key'') \<and> lit ''g-key'' \<noteq> [] \<and>
   or_empty (env_GOOGLE_API_KEY no_credentials) = [] \<and>
   venue_agent_key no_credentials = Inl (PyException ''RuntimeError'')"
proof -
  have k: "google_api_key keyless_agent = []" by (simp add: keyless_agent_def)
  have w: "get_weather_line keyless_agent demo_request = Inr (Some (lit ''Sunny''))"
    by (simp add: get_weather_line_def demo_request_def ascii_eval)
  have n: "or_empty (Some (lit ''Sunny'')) \<noteq> []" by (simp add: or_empty_def lit_def)
  have j: "lit '' **Weather:** '' @ or_empty (Some (lit ''Sunny'')) = lit '' **Weather:** Sunny''"
    by (simp add: or_empty_def lit_def)
  have m: "venue_agent_key model_key_only = Inr (lit ''g-key'')"
    by (simp add: venue_agent_key_def base_agent_init_def model_key_only_def or_empty_def lit_def)
  have e: "or_empty (env_GOOGLE_API_KEY no_credentials) = []"
    by (simp add: no_credentials_def or_empty_def)
  note th = no_credentials_no_venues[of keyless_agent ascii_str "lit ''Le Jardin''" "lit ''Paris''"
        "lit ''French''" "lit ''Indoor''" "lit ''Kids''" False demo_request]
  have p1: "search_venue_in_places keyless_agent ascii_str (lit ''Le Jardin'') (lit ''Paris'') (lit ''French'') = Inr None \<and>
     get_fallback_venues keyless_agent ascii_str (lit ''Paris'') (lit ''Indoor'') (lit ''Kids'') (lit ''French'') False = Inr [] \<and>
     (\<exists>r. process_request keyless_agent ascii_str demo_request = Inr r \<and> suggestions r = [] \<and>
        unified_display r = [128197] @ lit '' **Weather:** Sunny'' @ [10, 10] @ no_venues_notice)"
    using th[of model_key_only] k w n j by (simp add: append_assoc[symmetric] del: append_assoc)
  have p2: "lit ''g-key'' \<noteq> []" using th[of model_key_only] m by blast
  have p3: "venue_agent_key no_credentials = Inl (PyException ''RuntimeError'')"
    using th[of no_credentials] e by blast
  show ?thesis using k w p1 m p2 e p3 by blast
qed

text \<open>
  C4 as stated fails: with no credentials configured at all the agent is not even
  constructed, and the request ends in the error of the constructor instead of a
  result without venues.
\<close>

theorem no_credentials_aborts:
  "venue_agent_key no_credentials = Inl (PyException ''RuntimeError'') \<and>
   venue_agent_request no_credentials demo_agent ascii_str demo_request = Inl (PyException ''RuntimeError'')"
  by (simp add: venue_agent_key_def base_agent_init_def venue_agent_request_def no_credentials_def
      or_empty_def)

text \<open>
  C9. The final guard changes nothing: the request with it equals the request without
  it. Step by step: when step 3 ran with the effective cuisine and returned \<open>enriched\<close>,
  the guard returns \<open>enriched\<close> again; and when the guard's condition holds (nothing
  enriched, outdoor, a cuisine requested), step 3 had started from the empty list, so it
  had called the fallback strategy, with the arguments the guard uses, and that call
  returned the empty list.
\<close>

theorem final_guard_is_noop:
  "process_request A U ctx = process_request_without_final_guard A U ctx \<and>
   (\<forall>enriched0 enriched.
      fallback_stage A U city venue_type audience (if is_outdoor then [] else cuisine) is_outdoor enriched0
        = Inr enriched \<longrightarrow>
      final_guard A U city venue_type audience cuisine is_outdoor enriched = Inr enriched \<and>
      (enriched = [] \<and> is_outdoor \<and> cuisine \<noteq> [] \<longrightarrow>
         enriched0 = [] \<and>
         get_fallback_venues A U city venue_type audience (if is_outdoor then [] else cuisine) is_outdoor
           = get_fallback_venues A U city venue_type audience [] True \<and>
         get_fallback_venues A U city venue_type audience [] True = Inr []))"
  using final_guard_after_fallback final_guard_retry_same
  by (simp add: process_request_guard_free)

text \<open>An outdoor request for Izmir with Italian as a hint: both fallback calls find nothing.\<close>

theorem final_guard_is_noop_witness:
  "fallback_stage demo_agent ascii_str (lit ''Izmir'') (lit ''Outdoor'') [] [] True [] = Inr [] \<and>
   final_guard demo_agent ascii_str (lit ''Izmir'') (lit ''Outdoor'') [] (lit ''Italian'') True [] = Inr [] \<and>
   get_fallback_venues demo_agent ascii_str (lit ''Izmir'') (lit ''Outdoor'') [] [] True = Inr [] \<and>
   process_request demo_agent ascii_str demo_request =
     process_request_without_final_guard demo_agent ascii_str demo_request"
proof -
  have f: "fallback_stage demo_agent ascii_str (lit ''Izmir'') (lit ''Outdoor'') [] (if True then [] else lit ''Italian'') True [] = Inr []"
    by (simp add: fallback_stage_def demo_fallback_izmir)
  have n: "lit ''Italian'' \<noteq> []" by (simp add: lit_def)
  show ?thesis
    using final_guard_is_noop[of demo_agent ascii_str demo_request "lit ''Izmir''" "lit ''Outdoor''" "[]" True "lit ''Italian''"]
      f n by auto
qed

section \<open>Properties of the name extractor\<close>























end
